theory Spec2Isabelle
  imports Complex_Main
begin

section \<open>JTF News: the verification and deduplication pipeline of main.py\<close>

text \<open>
  The theory embeds the functions of \<^verbatim>\<open>main.py\<close> that decide whether an extracted fact is
  dropped, queued or published: \<^verbatim>\<open>are_sources_unrelated\<close>, \<^verbatim>\<open>has_word_overlap\<close>,
  \<^verbatim>\<open>find_matching_stories\<close>, \<^verbatim>\<open>is_duplicate_batch\<close>, \<^verbatim>\<open>clean_expired_queue\<close>,
  \<^verbatim>\<open>is_duplicate\<close>, \<^verbatim>\<open>extract_fact\<close> and the loop of \<^verbatim>\<open>process_cycle\<close>.

  Conventions of the embedding.
  \<^item> A Python \<^verbatim>\<open>str\<close> is a \<^typ>\<open>string\<close>; a character stands for the code point of the same
    number, so the model covers text in the range U+0000..U+00FF. \<^verbatim>\<open>str.split\<close>,
    \<^verbatim>\<open>str.strip\<close>, \<^verbatim>\<open>str.lower\<close> and \<^verbatim>\<open>str.upper\<close> are written out for that range.
  \<^item> The dictionaries read from JSON are records; a key that the code reads with
    \<^verbatim>\<open>.get\<close> or that a producer may omit is an \<open>option\<close> field.
  \<^item> The float \<^verbatim>\<open>threshold\<close> of the prefilter and the float timestamps are rationals.
  \<^item> Calls to the Anthropic API are answers of an oracle \<open>claude\<close>, which may be an
    exception; every call is appended to a log kept in the state.
\<close>

subsection \<open>Strings\<close>

definition isspace :: "char \<Rightarrow> bool" where
  \<comment> \<open>\<^verbatim>\<open>str.isspace\<close> on U+0000..U+00FF: TAB..CR, FS..US, space, NEL and NBSP.\<close>
  "isspace c = (let n = (of_char c :: nat) in
      (9 \<le> n \<and> n \<le> 13) \<or> (28 \<le> n \<and> n \<le> 32) \<or> n = 133 \<or> n = 160)"

definition lower_char :: "char \<Rightarrow> char" where
  \<comment> \<open>A..Z and the Latin-1 capitals (all of U+00C0..U+00DE but the multiplication sign).\<close>
  "lower_char c = (let n = (of_char c :: nat) in
      if (65 \<le> n \<and> n \<le> 90) \<or> (192 \<le> n \<and> n \<le> 222 \<and> n \<noteq> 215)
      then char_of (n + 32) else c)"

definition lower :: "string \<Rightarrow> string" where
  "lower s = map lower_char s"

definition upper_char :: "char \<Rightarrow> string" where
  \<comment> \<open>a..z and the Latin-1 small letters; the sharp s becomes \<^verbatim>\<open>SS\<close>. The capitals of the
      micro sign and of y with diaeresis lie beyond U+00FF: both are left as they are, which
      no comparison with an ASCII literal can tell from their real capitals.\<close>
  "upper_char c = (let n = (of_char c :: nat) in
      if (97 \<le> n \<and> n \<le> 122) \<or> (224 \<le> n \<and> n \<le> 254 \<and> n \<noteq> 247)
      then [char_of (n - 32)]
      else if n = 223 then ''SS'' else [c])"

definition upper :: "string \<Rightarrow> string" where
  "upper s = concat (map upper_char s)"

definition strip :: "string \<Rightarrow> string" where
  \<comment> \<open>\<^verbatim>\<open>str.strip()\<close>: white space removed at both ends.\<close>
  "strip s = rev (dropWhile isspace (rev (dropWhile isspace s)))"

fun split_words :: "string \<Rightarrow> string \<Rightarrow> string list" where
  \<comment> \<open>The scan of \<^verbatim>\<open>str.split()\<close>; the first argument is the word read so far.\<close>
  "split_words w [] = (if w = [] then [] else [w])"
| "split_words w (c # cs) =
     (if isspace c then (if w = [] then split_words [] cs else w # split_words [] cs)
      else split_words (w @ [c]) cs)"

definition py_split :: "string \<Rightarrow> string list" where
  \<comment> \<open>\<^verbatim>\<open>s.split()\<close>: the maximal runs of characters that are not white space.\<close>
  "py_split s = split_words [] s"

fun split_on :: "char \<Rightarrow> string \<Rightarrow> string \<Rightarrow> string list" where
  \<comment> \<open>The scan of \<^verbatim>\<open>s.split(sep)\<close> for a separator of one character: empty pieces are kept.\<close>
  "split_on sep w [] = [w]"
| "split_on sep w (c # cs) =
     (if c = sep then w # split_on sep [] cs else split_on sep (w @ [c]) cs)"

definition split_sep :: "char \<Rightarrow> string \<Rightarrow> string list" where
  "split_sep sep s = split_on sep [] s"

subsection \<open>Configuration and the source registry\<close>

record source =
  src_id :: string
  src_owner :: string
  src_institutional_holders :: "string list option"
    \<comment> \<open>the \<^verbatim>\<open>name\<close> of each entry of \<^verbatim>\<open>institutional_holders\<close>; \<open>None\<close> when the key is absent\<close>

record config =
  sources :: "source list"
  max_shared_top_holders :: int
  queue_timeout_hours :: rat
  min_confidence :: int

definition sources_by_id :: "source list \<Rightarrow> (string \<rightharpoonup> source)" where
  \<comment> \<open>\<^verbatim>\<open>{s["id"]: s for s in CONFIG["sources"]}\<close>: a later entry replaces an earlier one.\<close>
  "sources_by_id srcs = foldl (\<lambda>m s. m(src_id s \<mapsto> s)) Map.empty srcs"

definition holder_names :: "source \<Rightarrow> string list" where
  \<comment> \<open>\<^verbatim>\<open>s.get("institutional_holders", [])\<close>, each holder read at \<^verbatim>\<open>"name"\<close>.\<close>
  "holder_names s = (case src_institutional_holders s of None \<Rightarrow> [] | Some hs \<Rightarrow> hs)"

definition are_sources_unrelated :: "config \<Rightarrow> string \<Rightarrow> string \<Rightarrow> bool" where
  "are_sources_unrelated cfg source1_id source2_id =
     (let srcs = sources_by_id (sources cfg);
          s1 = srcs source1_id;
          s2 = srcs source2_id
      in case s1 of None \<Rightarrow> False
         | Some a \<Rightarrow>
            (case s2 of None \<Rightarrow> False
             | Some b \<Rightarrow>
                if src_owner a = src_owner b then False
                else let holders1 = set (holder_names a);
                         holders2 = set (holder_names b);
                         shared = holders1 \<inter> holders2
                     in if int (card shared) \<ge> max_shared_top_holders cfg then False
                        else True))"

subsection \<open>The lexical prefilter\<close>

definition meaningful_words :: "string \<Rightarrow> string set" where
  \<comment> \<open>\<^verbatim>\<open>set(w.lower() for w in fact.split() if len(w) >= 3)\<close>\<close>
  "meaningful_words fct = set (map lower (filter (\<lambda>w. 3 \<le> length w) (py_split fct)))"

definition has_word_overlap :: "string \<Rightarrow> string \<Rightarrow> rat \<Rightarrow> bool" where
  "has_word_overlap fact1 fact2 threshold =
     (let words1 = meaningful_words fact1;
          words2 = meaningful_words fact2
      in if words1 = {} \<or> words2 = {} then False
         else let shared = words1 \<inter> words2;
                  min_len = min (card words1) (card words2)
              in of_nat (card shared) \<ge> of_nat min_len * threshold)"

definition default_threshold :: rat where
  \<comment> \<open>The default \<^verbatim>\<open>threshold: float = 0.15\<close>. No caller passes another one. With the double
      nearest to 0.15 the comparison \<^verbatim>\<open>len(shared) >= min_len * threshold\<close> has the same
      outcome as with the rational: the product is within one rounding of \<open>3 * min_len / 20\<close>,
      which is an integer or at least \<open>1 / 20\<close> away from one.\<close>
  "default_threshold = 15 / 100"

definition overlaps :: "string \<Rightarrow> string \<Rightarrow> bool" where
  \<comment> \<open>\<^verbatim>\<open>has_word_overlap(a, b)\<close> as every caller writes it.\<close>
  "overlaps a b = has_word_overlap a b default_threshold"

subsection \<open>Errors, integer parsing\<close>

datatype error = ApiError | ValueError | KeyError | SystemExit
  \<comment> \<open>\<open>ApiError\<close> stands for any exception of the API client, and for the \<^verbatim>\<open>IndexError\<close> of
      \<^verbatim>\<open>response.content[0]\<close> on a reply without content.\<close>

definition is_digit :: "char \<Rightarrow> bool" where
  "is_digit c = (let n = (of_char c :: nat) in 48 \<le> n \<and> n \<le> 57)"

definition digit_value :: "char \<Rightarrow> int" where
  "digit_value c = int (of_char c) - 48"

fun int_digits :: "bool \<Rightarrow> int \<Rightarrow> string \<Rightarrow> int option" where
  \<comment> \<open>Decimal digits, with single underscores between two digits; the flag says that the
      character before was a digit.\<close>
  "int_digits prev acc [] = (if prev then Some acc else None)"
| "int_digits prev acc (c # cs) =
     (if is_digit c then int_digits True (10 * acc + digit_value c) cs
      else if c = CHR ''_'' \<and> prev then int_digits False acc cs
      else None)"

definition int_space :: "char \<Rightarrow> bool" where
  \<comment> \<open>The white space that \<^verbatim>\<open>int\<close> accepts around a number: TAB..CR and space, and NEL and
      NBSP, which it reads as spaces. Unlike \<^verbatim>\<open>str.strip\<close> it does not accept FS..US.\<close>
  "int_space c = (let n = (of_char c :: nat) in
      (9 \<le> n \<and> n \<le> 13) \<or> n = 32 \<or> n = 133 \<or> n = 160)"

definition py_int :: "string \<Rightarrow> error + int" where
  \<comment> \<open>\<^verbatim>\<open>int(s)\<close>: white space around, an optional sign, digits; \<^verbatim>\<open>ValueError\<close> otherwise. The
      interpreter's limit on the number of digits is not modelled.\<close>
  "py_int s =
     (let t = rev (dropWhile int_space (rev (dropWhile int_space s)));
          r = (case t of
                 [] \<Rightarrow> None
               | c # cs \<Rightarrow>
                   if c = CHR ''+'' then int_digits False 0 cs
                   else if c = CHR ''-'' then map_option uminus (int_digits False 0 cs)
                   else int_digits False 0 t)
      in case r of None \<Rightarrow> Inl ValueError | Some n \<Rightarrow> Inr n)"

subsection \<open>Records of the pipeline\<close>

record headline =
  h_text :: string
  h_source_id :: string
  h_source_name :: string
  h_source_rating :: rat
  h_owner :: string
  h_timestamp :: rat
    \<comment> \<open>the instant that the ISO string written by the scraper denotes, in seconds\<close>

record queue_item =
  q_fact :: string
  q_source_id :: string
  q_source_name :: string
  q_source_rating :: rat
  q_timestamp :: rat
    \<comment> \<open>\<^verbatim>\<open>datetime.fromisoformat(item["timestamp"]).timestamp()\<close>\<close>
  q_confidence :: int

record extraction =
  x_fact :: "string option"
  x_confidence :: "int option"
  x_newsworthy :: "bool option"
  x_threshold_met :: "string option"
    \<comment> \<open>the dictionary that \<^verbatim>\<open>extract_fact\<close> returns; \<open>None\<close> is an absent key. The keys
        \<^verbatim>\<open>removed\<close> and \<^verbatim>\<open>error\<close> are read nowhere and left out.\<close>

record story =
  st_fact :: string
  st_sources :: "(string \<times> rat) list"
    \<comment> \<open>source name and rating of \<^verbatim>\<open>sources[:2]\<close>, the content of the \<^verbatim>\<open>source\<close> text\<close>
  st_audio :: "nat option"
    \<comment> \<open>\<open>Some i\<close> for \<^verbatim>\<open>audio_i.mp3\<close>, \<open>None\<close> for \<^verbatim>\<open>current.mp3\<close>\<close>

datatype request =
    ExtractFact string
  | SameEvent string "string list"
  | DuplicateOf string "string list"
  \<comment> \<open>What a prompt is built from: the headline; the new fact and the numbered candidates.\<close>

record env =
  claude :: "nat \<Rightarrow> request \<Rightarrow> error + string"
    \<comment> \<open>the text of the reply to a request, given the number of earlier requests\<close>
  md5_hexdigest :: "string \<Rightarrow> string"
  json_loads :: "string \<Rightarrow> extraction option"
    \<comment> \<open>\<open>None\<close> is \<^verbatim>\<open>JSONDecodeError\<close>\<close>
  fact_pattern :: "string \<Rightarrow> string option"
    \<comment> \<open>group 1 of the \<^verbatim>\<open>re.search\<close> for the \<^verbatim>\<open>"fact"\<close> field\<close>
  confidence_pattern :: "string \<Rightarrow> int option"
    \<comment> \<open>\<^verbatim>\<open>int\<close> of group 1 of the \<^verbatim>\<open>re.search\<close> for the \<^verbatim>\<open>"confidence"\<close> field\<close>
  tts_convert :: "string \<Rightarrow> bool"
    \<comment> \<open>whether the text-to-speech call succeeds\<close>
  today :: string
    \<comment> \<open>the UTC date of \<^verbatim>\<open>datetime.now\<close>, the same during one cycle\<close>

record world =
  kill_switch :: bool
  queue_json :: "queue_item list option"
  shown_files :: "string \<rightharpoonup> string list"
    \<comment> \<open>the lines of \<^verbatim>\<open>shown_<date>.txt\<close>\<close>
  processed_files :: "string \<rightharpoonup> string list"
  stories_json :: "(string \<times> story list) option"
    \<comment> \<open>\<^verbatim>\<open>date\<close> and \<^verbatim>\<open>stories\<close> of \<^verbatim>\<open>stories.json\<close>\<close>
  daily_logs :: "string \<rightharpoonup> story list"
    \<comment> \<open>the entries of \<^verbatim>\<open><date>.txt\<close>\<close>
  current_txt :: "string option"
  api_log :: "request list"
    \<comment> \<open>every request made to the API so far\<close>

record locals =
  queue :: "queue_item list"
  skipped_count :: nat
  published_count :: nat

definition messages_create :: "env \<Rightarrow> request \<Rightarrow> world \<Rightarrow> (error + string) \<times> world" where
  \<comment> \<open>\<^verbatim>\<open>client.messages.create(...)\<close> followed by \<^verbatim>\<open>response.content[0].text\<close>\<close>
  "messages_create e req w =
     (claude e (length (api_log w)) req, w\<lparr>api_log := api_log w @ [req]\<rparr>)"

subsection \<open>Corroboration matcher and duplicate detector\<close>

fun parse_matches :: "queue_item list \<Rightarrow> string list \<Rightarrow> queue_item list" where
  \<comment> \<open>The loop over \<^verbatim>\<open>answer.replace(" ", "").split(",")\<close>.\<close>
  "parse_matches candidates [] = []"
| "parse_matches candidates (num_str # rest) =
     (case py_int num_str of
        Inl err \<Rightarrow> parse_matches candidates rest
      | Inr n \<Rightarrow>
          (let idx = n - 1
           in if 0 \<le> idx \<and> idx < int (length candidates)
              then candidates ! nat idx # parse_matches candidates rest
              else parse_matches candidates rest))"

definition find_matching_try ::
  "env \<Rightarrow> string \<Rightarrow> queue_item list \<Rightarrow> world \<Rightarrow> (error + queue_item list) \<times> world" where
  \<comment> \<open>The body of the \<^verbatim>\<open>try\<close> of \<^verbatim>\<open>find_matching_stories\<close>.\<close>
  "find_matching_try e fct candidates w =
     (let (reply, w') = messages_create e (SameEvent fct (map q_fact candidates)) w
      in case reply of
           Inl err \<Rightarrow> (Inl err, w')
         | Inr txt \<Rightarrow>
             (let answer = upper (strip txt)
              in if answer = ''NONE'' \<or> answer = [] then (Inr [], w')
                 else (Inr (parse_matches candidates
                         (split_sep CHR '','' (filter (\<lambda>c. c \<noteq> CHR '' '') answer))), w')))"

definition find_matching_stories ::
  "env \<Rightarrow> string \<Rightarrow> queue_item list \<Rightarrow> world \<Rightarrow> queue_item list \<times> world" where
  "find_matching_stories e fct q w =
     (if q = [] then ([], w)
      else let candidates = filter (\<lambda>item. overlaps fct (q_fact item)) q
           in if candidates = [] then ([], w)
              else (case find_matching_try e fct candidates w of
                      (Inl err, w') \<Rightarrow> ([], w')
                    | (Inr matches, w') \<Rightarrow> (matches, w')))"

definition is_duplicate_try ::
  "env \<Rightarrow> string \<Rightarrow> string list \<Rightarrow> world \<Rightarrow> (error + bool) \<times> world" where
  \<comment> \<open>The body of the \<^verbatim>\<open>try\<close> of \<^verbatim>\<open>is_duplicate_batch\<close>.\<close>
  "is_duplicate_try e fct candidates w =
     (let (reply, w') = messages_create e (DuplicateOf fct candidates) w
      in case reply of
           Inl err \<Rightarrow> (Inl err, w')
         | Inr txt \<Rightarrow>
             (let answer = upper (strip txt)
              in if answer = ''YES'' then (Inr True, w') else (Inr False, w')))"

definition is_duplicate_batch ::
  "env \<Rightarrow> string \<Rightarrow> string list \<Rightarrow> world \<Rightarrow> bool \<times> world" where
  "is_duplicate_batch e fct published w =
     (if published = [] then (False, w)
      else let candidates = filter (\<lambda>p. overlaps fct p) published
           in if candidates = [] then (False, w)
              else (case is_duplicate_try e fct candidates w of
                      (Inl err, w') \<Rightarrow> (False, w')
                    | (Inr b, w') \<Rightarrow> (b, w')))"

subsection \<open>Queue management\<close>

definition load_queue :: "world \<Rightarrow> queue_item list" where
  "load_queue w = (case queue_json w of Some q \<Rightarrow> q | None \<Rightarrow> [])"

definition save_queue :: "queue_item list \<Rightarrow> world \<Rightarrow> world" where
  "save_queue q w = w\<lparr>queue_json := Some q\<rparr>"

definition clean_expired_queue :: "config \<Rightarrow> rat \<Rightarrow> queue_item list \<Rightarrow> queue_item list" where
  \<comment> \<open>The second argument is \<^verbatim>\<open>datetime.now(timezone.utc).timestamp()\<close>.\<close>
  "clean_expired_queue cfg now q =
     (let timeout_hours = queue_timeout_hours cfg;
          cutoff = now - timeout_hours * 3600
      in filter (\<lambda>item. q_timestamp item > cutoff) q)"

subsection \<open>Duplicate detection\<close>

definition get_story_hash :: "env \<Rightarrow> string \<Rightarrow> string" where
  \<comment> \<open>\<^verbatim>\<open>hashlib.md5(text.lower().encode()).hexdigest()[:12]\<close>; MD5 is a parameter.\<close>
  "get_story_hash e txt = take 12 (md5_hexdigest e (lower txt))"

definition load_shown_hashes :: "env \<Rightarrow> world \<Rightarrow> string set" where
  "load_shown_hashes e w =
     (case shown_files w (today e) of
        Some ls \<Rightarrow> set (map strip (filter (\<lambda>line. strip line \<noteq> []) ls))
      | None \<Rightarrow> {})"

definition add_shown_hash :: "env \<Rightarrow> string \<Rightarrow> world \<Rightarrow> world" where
  "add_shown_hash e story_hash w =
     w\<lparr>shown_files := (shown_files w)(today e \<mapsto>
          (case shown_files w (today e) of Some ls \<Rightarrow> ls | None \<Rightarrow> []) @ [story_hash])\<rparr>"

definition load_published_stories :: "env \<Rightarrow> world \<Rightarrow> string list" where
  "load_published_stories e w =
     (case stories_json w of
        Some (d, ss) \<Rightarrow> if d = today e then map st_fact ss else []
      | None \<Rightarrow> [])"

definition is_duplicate :: "env \<Rightarrow> string \<Rightarrow> world \<Rightarrow> bool \<times> world" where
  "is_duplicate e fct w =
     (let story_hash = get_story_hash e fct;
          shown = load_shown_hashes e w
      in if story_hash \<in> shown then (True, w)
         else let published = load_published_stories e w
              in is_duplicate_batch e fct published w)"

subsection \<open>Headline cache\<close>

definition load_processed_headlines :: "env \<Rightarrow> world \<Rightarrow> string set" where
  "load_processed_headlines e w =
     (case processed_files w (today e) of
        Some ls \<Rightarrow> set (map strip (filter (\<lambda>line. strip line \<noteq> []) ls))
      | None \<Rightarrow> {})"

definition add_processed_headline :: "env \<Rightarrow> string \<Rightarrow> world \<Rightarrow> world" where
  "add_processed_headline e headline_hash w =
     w\<lparr>processed_files := (processed_files w)(today e \<mapsto>
          (case processed_files w (today e) of Some ls \<Rightarrow> ls | None \<Rightarrow> []) @ [headline_hash])\<rparr>"

definition is_headline_processed :: "env \<Rightarrow> string \<Rightarrow> string set \<Rightarrow> bool" where
  "is_headline_processed e headline_text processed_cache =
     (get_story_hash e headline_text \<in> processed_cache)"

subsection \<open>Fact extraction\<close>

fun py_find :: "string \<Rightarrow> char \<Rightarrow> int" where
  \<comment> \<open>\<^verbatim>\<open>s.find(c)\<close>: the first index of the character, or \<open>-1\<close>.\<close>
  "py_find [] c = -1"
| "py_find (x # xs) c =
     (if x = c then 0 else (let r = py_find xs c in if r < 0 then -1 else r + 1))"

definition py_rfind :: "string \<Rightarrow> char \<Rightarrow> int" where
  \<comment> \<open>\<^verbatim>\<open>s.rfind(c)\<close>: the last index of the character, or \<open>-1\<close>.\<close>
  "py_rfind s c =
     (let r = py_find (rev s) c in if r < 0 then -1 else int (length s) - 1 - r)"

fun unescape_quotes :: "string \<Rightarrow> string" where
  \<comment> \<open>\<^verbatim>\<open>.replace('\\"', '"')\<close>: a backslash before a double quote is removed.\<close>
  "unescape_quotes (a # b # cs) =
     (if a = CHR 0x5C \<and> b = CHR 0x22 then b # unescape_quotes cs
      else a # unescape_quotes (b # cs))"
| "unescape_quotes cs = cs"

definition skip_result :: extraction where
  \<comment> \<open>\<^verbatim>\<open>{"fact": "SKIP", "confidence": 0, "removed": []}\<close>\<close>
  "skip_result =
     \<lparr>x_fact = Some ''SKIP'', x_confidence = Some 0, x_newsworthy = None,
      x_threshold_met = None\<rparr>"

definition regex_fallback :: "env \<Rightarrow> string \<Rightarrow> extraction" where
  \<comment> \<open>The part of \<^verbatim>\<open>extract_fact\<close> under "Fallback: Extract fields using regex".\<close>
  "regex_fallback e txt =
     (case fact_pattern e txt of
        Some g \<Rightarrow>
          \<lparr>x_fact = Some (unescape_quotes g),
           x_confidence = Some (case confidence_pattern e txt of Some c \<Rightarrow> c | None \<Rightarrow> 85),
           x_newsworthy = None, x_threshold_met = None\<rparr>
      | None \<Rightarrow> skip_result)"

definition extract_fact :: "env \<Rightarrow> string \<Rightarrow> world \<Rightarrow> extraction \<times> world" where
  "extract_fact e headline_text w =
     (let (reply, w') = messages_create e (ExtractFact headline_text) w
      in case reply of
           Inl err \<Rightarrow> (skip_result, w')
         | Inr txt \<Rightarrow>
             (let start = py_find txt CHR ''{'';
                  stop = py_rfind txt CHR ''}'' + 1;
                  parsed = (if start \<ge> 0 \<and> stop > start
                            then json_loads e (take (nat (stop - start)) (drop (nat start) txt))
                            else None)
              in case parsed of
                   Some d \<Rightarrow> (d, w')
                 | None \<Rightarrow> (regex_fallback e txt, w')))"

subsection \<open>Output of a verified story\<close>

definition get_next_audio_index :: "env \<Rightarrow> world \<Rightarrow> nat" where
  "get_next_audio_index e w =
     (case stories_json w of
        Some (d, ss) \<Rightarrow> if d = today e then length ss else 0
      | None \<Rightarrow> 0)"

definition generate_tts :: "env \<Rightarrow> string \<Rightarrow> nat \<Rightarrow> nat option" where
  \<comment> \<open>The name of the indexed audio file, or \<^verbatim>\<open>False\<close> when the call fails. The audio files
      themselves are not part of the state.\<close>
  "generate_tts e txt audio_index = (if tts_convert e txt then Some audio_index else None)"

definition write_current_story :: "string \<Rightarrow> world \<Rightarrow> world" where
  "write_current_story fct w = w\<lparr>current_txt := Some fct\<rparr>"

definition update_stories_json :: "env \<Rightarrow> story \<Rightarrow> world \<Rightarrow> world" where
  \<comment> \<open>The RSS feed written at the end is not part of the state.\<close>
  "update_stories_json e st w =
     (let stories = (case stories_json w of
                       Some (d, ss) \<Rightarrow> if d \<noteq> today e then (today e, []) else (d, ss)
                     | None \<Rightarrow> (today e, []))
      in w\<lparr>stories_json := Some (fst stories, snd stories @ [st])\<rparr>)"

definition append_daily_log :: "env \<Rightarrow> story \<Rightarrow> world \<Rightarrow> world" where
  "append_daily_log e st w =
     update_stories_json e st
       (w\<lparr>daily_logs := (daily_logs w)(today e \<mapsto>
             (case daily_logs w (today e) of Some ls \<Rightarrow> ls | None \<Rightarrow> []) @ [st])\<rparr>)"

subsection \<open>One processing cycle\<close>

definition new_queue_item :: "headline \<Rightarrow> string \<Rightarrow> int \<Rightarrow> queue_item" where
  "new_queue_item h fct conf =
     \<lparr>q_fact = fct, q_source_id = h_source_id h, q_source_name = h_source_name h,
      q_source_rating = h_source_rating h, q_timestamp = h_timestamp h,
      q_confidence = conf\<rparr>"

fun check_matches ::
  "config \<Rightarrow> env \<Rightarrow> headline \<Rightarrow> string \<Rightarrow> queue_item list \<Rightarrow> world \<times> locals \<Rightarrow> world \<times> locals"
  where
  \<comment> \<open>\<^verbatim>\<open>for match in matches:\<close> with its \<^verbatim>\<open>break\<close> after the first unrelated source.\<close>
  "check_matches cfg e h fct [] (w, l) = (w, l)"
| "check_matches cfg e h fct (m # ms) (w, l) =
     (if are_sources_unrelated cfg (h_source_id h) (q_source_id m)
      then let audio_index = get_next_audio_index e w;
               audio_file = generate_tts e fct audio_index;
               st = \<lparr>st_fact = fct,
                     st_sources = [(h_source_name h, h_source_rating h),
                                   (q_source_name m, q_source_rating m)],
                     st_audio = audio_file\<rparr>;
               w1 = write_current_story fct w;
               w2 = append_daily_log e st w1;
               w3 = add_shown_hash e (get_story_hash e fct) w2
           in (w3, l\<lparr>queue := filter (\<lambda>q. q_fact q \<noteq> q_fact m) (queue l),
                     published_count := published_count l + 1\<rparr>)
      else check_matches cfg e h fct ms (w, l))"

definition verify_fact ::
  "config \<Rightarrow> env \<Rightarrow> headline \<Rightarrow> string \<Rightarrow> int \<Rightarrow> world \<times> locals \<Rightarrow> world \<times> locals" where
  \<comment> \<open>The loop body of \<^verbatim>\<open>process_cycle\<close> from "Check for duplicates" on.\<close>
  "verify_fact cfg e h fct conf s =
     (let (w, l) = s;
          (dup, w1) = is_duplicate e fct w
      in if dup then (w1, l)
         else let (matches, w2) = find_matching_stories e fct (queue l) w1
              in if matches \<noteq> [] then check_matches cfg e h fct matches (w2, l)
                 else (w2, l\<lparr>queue := queue l @ [new_queue_item h fct conf]\<rparr>))"

definition process_headline ::
  "config \<Rightarrow> env \<Rightarrow> string set \<Rightarrow> world \<times> locals \<Rightarrow> headline \<Rightarrow> error + world \<times> locals" where
  \<comment> \<open>The loop body of \<^verbatim>\<open>process_cycle\<close>; \<^verbatim>\<open>continue\<close> returns the state reached.\<close>
  "process_headline cfg e processed_cache s h =
     (let (w, l) = s
      in if is_headline_processed e (h_text h) processed_cache
         then Inr (w, l\<lparr>skipped_count := skipped_count l + 1\<rparr>)
         else let w1 = add_processed_headline e (get_story_hash e (h_text h)) w;
                  (result, w2) = extract_fact e (h_text h) w1
              in case x_fact result of
                   None \<Rightarrow> Inl KeyError
                 | Some fct \<Rightarrow>
                     if fct = ''SKIP'' then Inr (w2, l)
                     else (case x_confidence result of
                             None \<Rightarrow> Inl KeyError
                           | Some conf \<Rightarrow>
                               if conf < min_confidence cfg then Inr (w2, l)
                               else let newsworthy =
                                          (case x_newsworthy result of
                                             Some b \<Rightarrow> b | None \<Rightarrow> True)
                                    in if \<not> newsworthy then Inr (w2, l)
                                       else Inr (verify_fact cfg e h fct conf (w2, l))))"

fun process_headlines ::
  "config \<Rightarrow> env \<Rightarrow> string set \<Rightarrow> headline list \<Rightarrow> world \<times> locals \<Rightarrow> error + world \<times> locals"
  where
  \<comment> \<open>\<^verbatim>\<open>for headline in headlines:\<close>; an exception ends the loop.\<close>
  "process_headlines cfg e processed_cache [] s = Inr s"
| "process_headlines cfg e processed_cache (h # hs) s =
     (case process_headline cfg e processed_cache s h of
        Inl err \<Rightarrow> Inl err
      | Inr s' \<Rightarrow> process_headlines cfg e processed_cache hs s')"

definition process_cycle ::
  "config \<Rightarrow> env \<Rightarrow> rat \<Rightarrow> headline list \<Rightarrow> world \<Rightarrow> error + world" where
  \<comment> \<open>\<open>now\<close> is the clock when the queue is cleaned; \<open>headlines\<close> is what
      \<^verbatim>\<open>scrape_all_sources()\<close> returns. \<^verbatim>\<open>sys.exit(0)\<close> is the error \<open>SystemExit\<close>.\<close>
  "process_cycle cfg e now headlines w =
     (if kill_switch w then Inl SystemExit
      else let q = clean_expired_queue cfg now (load_queue w);
               processed_cache = load_processed_headlines e w
           in case process_headlines cfg e processed_cache headlines
                     (w, \<lparr>queue = q, skipped_count = 0, published_count = 0\<rparr>) of
                Inl err \<Rightarrow> Inl err
              | Inr (w', l) \<Rightarrow> Inr (save_queue (queue l) w'))"

subsection \<open>A small instance\<close>

text \<open>
  Four sources: \<open>a\<close> and \<open>b\<close> have the same owner, \<open>c\<close> shares one holder with \<open>a\<close>, \<open>d\<close>
  shares two. The environment answers every extraction with the same JSON object, every
  matching request with \<^verbatim>\<open>1\<close> and every duplicate question with \<^verbatim>\<open>NO\<close>; \<open>json_loads\<close>
  parses that one object, and the identity stands for MD5.
\<close>

definition example_config :: config where
  "example_config =
     \<lparr>sources =
        [\<lparr>src_id = ''a'', src_owner = ''Acme'',
          src_institutional_holders = Some [''Vanguard'', ''BlackRock'']\<rparr>,
         \<lparr>src_id = ''b'', src_owner = ''Acme'', src_institutional_holders = None\<rparr>,
         \<lparr>src_id = ''c'', src_owner = ''Civic'',
          src_institutional_holders = Some [''Vanguard'']\<rparr>,
         \<lparr>src_id = ''d'', src_owner = ''Delta'',
          src_institutional_holders = Some [''BlackRock'', ''State Street'', ''Vanguard'']\<rparr>],
      max_shared_top_holders = 2, queue_timeout_hours = 3, min_confidence = 85\<rparr>"

definition example_fact :: string where
  "example_fact = ''City council approves park renovation''"

definition item_a :: queue_item where
  "item_a =
     \<lparr>q_fact = example_fact, q_source_id = ''a'', q_source_name = ''Acme Times'',
      q_source_rating = 9, q_timestamp = 1000, q_confidence = 95\<rparr>"

definition item_d :: queue_item where
  "item_d =
     \<lparr>q_fact = example_fact, q_source_id = ''d'', q_source_name = ''Delta Wire'',
      q_source_rating = 7, q_timestamp = 1100, q_confidence = 90\<rparr>"

definition item_other :: queue_item where
  "item_other =
     \<lparr>q_fact = ''Park renovation vote delayed by city council'', q_source_id = ''b'',
      q_source_name = ''Acme Post'', q_source_rating = 8, q_timestamp = 1200,
      q_confidence = 90\<rparr>"

definition headline_b :: headline where
  "headline_b =
     \<lparr>h_text = ''Council OKs park renovation plan'', h_source_id = ''b'',
      h_source_name = ''Acme Post'', h_source_rating = 8, h_owner = ''Acme'',
      h_timestamp = 1300\<rparr>"

definition headline_c :: headline where
  "headline_c =
     \<lparr>h_text = ''Park renovation approved by city council'', h_source_id = ''c'',
      h_source_name = ''Civic Daily'', h_source_rating = 9, h_owner = ''Civic'',
      h_timestamp = 1300\<rparr>"

definition quoted :: "string \<Rightarrow> string" where
  "quoted s = CHR 0x22 # s @ [CHR 0x22]"

definition extraction_reply :: string where
  \<comment> \<open>The JSON object that the extraction prompt asks for.\<close>
  "extraction_reply =
     ''{'' @ quoted ''fact'' @ '': '' @ quoted example_fact @ '', ''
       @ quoted ''confidence'' @ '': 95, '' @ quoted ''newsworthy'' @ '': true, ''
       @ quoted ''threshold_met'' @ '': '' @ quoted ''law change'' @ ''}''"

definition example_extraction :: extraction where
  "example_extraction =
     \<lparr>x_fact = Some example_fact, x_confidence = Some 95, x_newsworthy = Some True,
      x_threshold_met = Some ''law change''\<rparr>"

definition example_env :: env where
  "example_env =
     \<lparr>claude = (\<lambda>n req. case req of
                   ExtractFact t \<Rightarrow> Inr extraction_reply
                 | SameEvent f cs \<Rightarrow> Inr ''1''
                 | DuplicateOf f cs \<Rightarrow> Inr ''NO''),
      md5_hexdigest = (\<lambda>s. s),
      json_loads = (\<lambda>s. if s = extraction_reply then Some example_extraction else None),
      fact_pattern = (\<lambda>s. None),
      confidence_pattern = (\<lambda>s. None),
      tts_convert = (\<lambda>s. True),
      today = ''2026-01-15''\<rparr>"

definition world0 :: world where
  "world0 =
     \<lparr>kill_switch = False, queue_json = Some [item_a], shown_files = Map.empty,
      processed_files = Map.empty, stories_json = None, daily_logs = Map.empty,
      current_txt = None, api_log = []\<rparr>"

definition reply_env :: "error + string \<Rightarrow> env" where
  \<comment> \<open>The same environment, but every request is answered by the given reply.\<close>
  "reply_env r = example_env\<lparr>claude := (\<lambda>n req. r)\<rparr>"

definition malformed_reply :: string where
  \<comment> \<open>A JSON object with a trailing comma, which \<^verbatim>\<open>json.loads\<close> rejects.\<close>
  "malformed_reply =
     ''{'' @ quoted ''fact'' @ '': '' @ quoted ''Bridge collapses in Genoa'' @ '', ''
       @ quoted ''confidence'' @ '': 90,}''"

definition fallback_env :: env where
  \<comment> \<open>The extraction reply is malformed, so that only the regular expressions read it;
      the two functions stand for what they find in that reply.\<close>
  "fallback_env =
     example_env\<lparr>claude := (\<lambda>n req. case req of
                                ExtractFact t \<Rightarrow> Inr malformed_reply
                              | SameEvent f cs \<Rightarrow> Inr ''NONE''
                              | DuplicateOf f cs \<Rightarrow> Inr ''NO''),
                  json_loads := (\<lambda>s. None),
                  fact_pattern := (\<lambda>s. Some ''Bridge collapses in Genoa''),
                  confidence_pattern := (\<lambda>s. Some 90)\<rparr>"

definition headline_g :: headline where
  "headline_g =
     \<lparr>h_text = ''Horror as bridge collapses in Genoa'', h_source_id = ''c'',
      h_source_name = ''Civic Daily'', h_source_rating = 9, h_owner = ''Civic'',
      h_timestamp = 1400\<rparr>"

definition world_shown :: world where
  \<comment> \<open>The fact was shown today: its hash, under the stand-in for MD5, is in the file.\<close>
  "world_shown = world0\<lparr>shown_files := [''2026-01-15'' \<mapsto> [''city council'']]\<rparr>"

definition world_published :: world where
  \<comment> \<open>A story about the same event, in other words, was published today.\<close>
  "world_published =
     world0\<lparr>stories_json := Some (''2026-01-15'',
        [\<lparr>st_fact = ''Park renovation approved by council'',
          st_sources = [(''Civic Daily'', 9), (''Delta Wire'', 7)], st_audio = Some 0\<rparr>])\<rparr>"

definition locals0 :: "queue_item list \<Rightarrow> locals" where
  "locals0 q = \<lparr>queue = q, skipped_count = 0, published_count = 0\<rparr>"

section \<open>Properties\<close>

subsection \<open>The lexical prefilter\<close>

lemma meaningful_words_empty_iff:
  "meaningful_words f = {} \<longleftrightarrow> (\<forall>w \<in> set (py_split f). length w < 3)"
  by (auto simp: meaningful_words_def filter_empty_conv not_le)

lemma overlaps_commute: "overlaps a b = overlaps b a"
  by (simp add: overlaps_def has_word_overlap_def Let_def Int_commute min.commute disj_commute)

lemma overlaps_self_iff: "overlaps f f \<longleftrightarrow> meaningful_words f \<noteq> {}"
proof -
  have "rat_of_nat n * (15 / 100) \<le> rat_of_nat n" for n :: nat
    by (simp add: mult_left_le)
  then show ?thesis
    by (simp add: overlaps_def has_word_overlap_def Let_def default_threshold_def)
qed

lemma overlaps_empty_words:
  "meaningful_words a = {} \<or> meaningful_words b = {} \<Longrightarrow> \<not> overlaps a b"
  by (auto simp: overlaps_def has_word_overlap_def Let_def)

text \<open>
  Claim C2 as stated, "\<open>overlaps(f, f)\<close> is true for every non-empty fact string", does not
  hold: the fact \<^verbatim>\<open>"ok"\<close> is not empty, but its only word has fewer than three characters,
  so its token set is empty and the guard \<^verbatim>\<open>if not words1 or not words2\<close> answers false.
\<close>

theorem overlaps_self_counterexample: "''ok'' \<noteq> [] \<and> \<not> overlaps ''ok'' ''ok''"
  by code_simp

text \<open>
  Claim C2, amended: \<open>overlaps(f, f)\<close> is true exactly when the token set of \<open>f\<close> is not
  empty, that is when \<open>f\<close> has a word of three characters or more; \<open>overlaps\<close> is symmetric;
  and it is false whenever either token set is empty.
\<close>

theorem overlaps_self_symmetric_empty:
  "(overlaps f f \<longleftrightarrow> (\<exists>w \<in> set (py_split f). 3 \<le> length w))
   \<and> overlaps a b = overlaps b a
   \<and> (meaningful_words a = {} \<or> meaningful_words b = {} \<longrightarrow> \<not> overlaps a b)"
proof -
  have "overlaps f f \<longleftrightarrow> (\<exists>w \<in> set (py_split f). 3 \<le> length w)"
    unfolding overlaps_self_iff meaningful_words_empty_iff by (auto simp: not_less)
  then show ?thesis
    using overlaps_commute overlaps_empty_words by blast
qed

theorem overlaps_self_symmetric_empty_witness:
  "overlaps ''Fire in Rome'' ''Fire in Rome''
   \<and> overlaps ''Fire in Rome'' ''Rome fire kills 3'' = overlaps ''Rome fire kills 3'' ''Fire in Rome''
   \<and> meaningful_words ''is it'' = {} \<and> \<not> overlaps ''is it'' ''Fire in Rome''"
proof -
  have w: "\<exists>w \<in> set (py_split ''Fire in Rome''). 3 \<le> length w"
    by code_simp
  have e: "meaningful_words ''is it'' = {}"
    by code_simp
  show ?thesis
    using w e
      overlaps_self_symmetric_empty [of "''Fire in Rome''" "''Fire in Rome''" "''Rome fire kills 3''"]
      overlaps_self_symmetric_empty [of "''is it''" "''is it''" "''Fire in Rome''"]
    by blast
qed

subsection \<open>The source independence oracle\<close>

lemma sources_by_id_snoc:
  "sources_by_id (srcs @ [s]) = (sources_by_id srcs)(src_id s \<mapsto> s)"
  by (simp add: sources_by_id_def)

lemma sources_by_id_None: "sources_by_id srcs i = None \<longleftrightarrow> i \<notin> src_id ` set srcs"
  by (induction srcs rule: rev_induct) (auto simp: sources_by_id_snoc sources_by_id_def)

lemma sources_by_id_Some: "sources_by_id srcs i = Some s \<Longrightarrow> s \<in> set srcs \<and> src_id s = i"
  by (induction srcs rule: rev_induct)
     (auto simp: sources_by_id_snoc sources_by_id_def split: if_splits)

text \<open>
  Claim C4: \<open>unrelated(A, B)\<close> is false if either id is unknown to the registry; for two
  known ids, with \<open>s1\<close> and \<open>s2\<close> the records that the registry resolves them to, it is
  false if the owners are equal, false if the number of shared institutional holders is at
  least \<^verbatim>\<open>max_shared_top_holders\<close>, and true otherwise. The record of a known id is an
  entry of \<^verbatim>\<open>CONFIG["sources"]\<close> with that id.
\<close>

theorem are_sources_unrelated_cases:
  "(a \<notin> src_id ` set (sources cfg) \<or> b \<notin> src_id ` set (sources cfg)
      \<longrightarrow> \<not> are_sources_unrelated cfg a b)
   \<and> (a \<in> src_id ` set (sources cfg) \<and> b \<in> src_id ` set (sources cfg)
      \<longrightarrow> (\<exists>s1 \<in> set (sources cfg). \<exists>s2 \<in> set (sources cfg).
            src_id s1 = a \<and> src_id s2 = b
            \<and> sources_by_id (sources cfg) a = Some s1
            \<and> sources_by_id (sources cfg) b = Some s2
            \<and> are_sources_unrelated cfg a b =
                (if src_owner s1 = src_owner s2 then False
                 else if int (card (set (holder_names s1) \<inter> set (holder_names s2)))
                           \<ge> max_shared_top_holders cfg then False
                 else True)))"
proof (intro conjI impI)
  assume "a \<notin> src_id ` set (sources cfg) \<or> b \<notin> src_id ` set (sources cfg)"
  then have "sources_by_id (sources cfg) a = None \<or> sources_by_id (sources cfg) b = None"
    by (simp add: sources_by_id_None)
  then show "\<not> are_sources_unrelated cfg a b"
    by (auto simp: are_sources_unrelated_def Let_def split: option.splits)
next
  assume "a \<in> src_id ` set (sources cfg) \<and> b \<in> src_id ` set (sources cfg)"
  then obtain s1 s2 where
    s1: "sources_by_id (sources cfg) a = Some s1" and
    s2: "sources_by_id (sources cfg) b = Some s2"
    using sources_by_id_None [of "sources cfg"] by (metis not_Some_eq)
  have "are_sources_unrelated cfg a b =
          (if src_owner s1 = src_owner s2 then False
           else if int (card (set (holder_names s1) \<inter> set (holder_names s2)))
                     \<ge> max_shared_top_holders cfg then False
           else True)"
    by (simp add: are_sources_unrelated_def Let_def s1 s2)
  with s1 s2 sources_by_id_Some [OF s1] sources_by_id_Some [OF s2]
  show "\<exists>s1 \<in> set (sources cfg). \<exists>s2 \<in> set (sources cfg).
            src_id s1 = a \<and> src_id s2 = b
            \<and> sources_by_id (sources cfg) a = Some s1
            \<and> sources_by_id (sources cfg) b = Some s2
            \<and> are_sources_unrelated cfg a b =
                (if src_owner s1 = src_owner s2 then False
                 else if int (card (set (holder_names s1) \<inter> set (holder_names s2)))
                           \<ge> max_shared_top_holders cfg then False
                 else True)"
    by blast
qed

theorem are_sources_unrelated_cases_witness:
  "''zz'' \<notin> src_id ` set (sources example_config)
   \<and> \<not> are_sources_unrelated example_config ''zz'' ''a''
   \<and> ''a'' \<in> src_id ` set (sources example_config)
   \<and> ''c'' \<in> src_id ` set (sources example_config)
   \<and> are_sources_unrelated example_config ''a'' ''c''
   \<and> \<not> are_sources_unrelated example_config ''a'' ''b''
   \<and> \<not> are_sources_unrelated example_config ''a'' ''d''"
proof -
  have u: "''zz'' \<notin> src_id ` set (sources example_config)"
    by code_simp
  have k: "''a'' \<in> src_id ` set (sources example_config)"
          "''c'' \<in> src_id ` set (sources example_config)"
    by code_simp+
  have v: "are_sources_unrelated example_config ''a'' ''c''"
          "\<not> are_sources_unrelated example_config ''a'' ''b''"
          "\<not> are_sources_unrelated example_config ''a'' ''d''"
    by code_simp+
  show ?thesis
    using u k v are_sources_unrelated_cases [of "''zz''" example_config "''a''"]
    by blast
qed

lemma are_sources_unrelated_commute:
  "are_sources_unrelated cfg a b = are_sources_unrelated cfg b a"
  by (auto simp: are_sources_unrelated_def Let_def Int_commute split: option.splits)

lemma are_sources_unrelated_same: "\<not> are_sources_unrelated cfg a a"
  by (auto simp: are_sources_unrelated_def Let_def split: option.splits)

text \<open>
  Claim C5: the source independence oracle is symmetric, and no source id is unrelated to
  itself, whether it is registered or not.
\<close>

theorem are_sources_unrelated_symmetric_irreflexive:
  "are_sources_unrelated cfg a b = are_sources_unrelated cfg b a
   \<and> \<not> are_sources_unrelated cfg a a"
  using are_sources_unrelated_commute are_sources_unrelated_same by blast

theorem are_sources_unrelated_symmetric_irreflexive_witness:
  "are_sources_unrelated example_config ''c'' ''a''
   \<and> \<not> are_sources_unrelated example_config ''a'' ''a''
   \<and> \<not> are_sources_unrelated example_config ''zz'' ''zz''"
proof -
  have "are_sources_unrelated example_config ''a'' ''c''"
    by code_simp
  then show ?thesis
    using are_sources_unrelated_symmetric_irreflexive [of example_config "''a''" "''c''"]
      are_sources_unrelated_symmetric_irreflexive [of example_config "''zz''" "''zz''"]
    by blast
qed

subsection \<open>Auxiliary facts about the matcher, the detector and the cycle\<close>

lemma parse_matches_subset: "set (parse_matches cands toks) \<subseteq> set cands"
  by (induction toks) (auto simp: Let_def split: sum.splits)

lemma find_matching_try_subset:
  "fst (find_matching_try e fct cands w) = Inr ms \<Longrightarrow> set ms \<subseteq> set cands"
  using parse_matches_subset [of cands]
  by (auto simp: find_matching_try_def messages_create_def Let_def
      split: sum.splits if_splits)

lemma find_matching_stories_subset:
  "set (fst (find_matching_stories e fct q w)) \<subseteq> set (filter (\<lambda>item. overlaps fct (q_fact item)) q)"
proof (cases "filter (\<lambda>item. overlaps fct (q_fact item)) q = []")
  case True
  then show ?thesis by (simp add: find_matching_stories_def)
next
  case False
  then have q: "q \<noteq> []" by auto
  obtain r w' where r: "find_matching_try e fct (filter (\<lambda>item. overlaps fct (q_fact item)) q) w = (r, w')"
    by (cases "find_matching_try e fct (filter (\<lambda>item. overlaps fct (q_fact item)) q) w")
  show ?thesis
  proof (cases r)
    case (Inl err)
    with r False q show ?thesis by (simp add: find_matching_stories_def)
  next
    case (Inr ms)
    with r have "fst (find_matching_try e fct (filter (\<lambda>item. overlaps fct (q_fact item)) q) w) = Inr ms"
      by simp
    from find_matching_try_subset [OF this] r Inr False q show ?thesis
      by (simp add: find_matching_stories_def)
  qed
qed

lemma clean_expired_queue_iff:
  "item \<in> set (clean_expired_queue cfg now q) \<longleftrightarrow>
     item \<in> set q \<and> now < q_timestamp item + queue_timeout_hours cfg * 3600"
  by (auto simp: clean_expired_queue_def Let_def)

lemma check_matches_queue_subset:
  "set (queue (snd (check_matches cfg e h fct ms (w, l)))) \<subseteq> set (queue l)"
  by (induction ms) (auto simp: Let_def)


lemma messages_create_world:
  "snd (messages_create e req w) = w\<lparr>api_log := api_log w @ [req]\<rparr>"
  by (simp add: messages_create_def)

lemma find_matching_try_world:
  "snd (find_matching_try e fct cands w) = w\<lparr>api_log := api_log w @ [SameEvent fct (map q_fact cands)]\<rparr>"
  by (simp add: find_matching_try_def messages_create_def Let_def split: sum.splits)

lemma is_duplicate_try_world:
  "snd (is_duplicate_try e fct cands w) = w\<lparr>api_log := api_log w @ [DuplicateOf fct cands]\<rparr>"
  by (simp add: is_duplicate_try_def messages_create_def Let_def split: sum.splits)

lemma find_matching_stories_world:
  "snd (find_matching_stories e fct q w) =
     (if filter (\<lambda>item. overlaps fct (q_fact item)) q = [] then w
      else w\<lparr>api_log := api_log w @
             [SameEvent fct (map q_fact (filter (\<lambda>item. overlaps fct (q_fact item)) q))]\<rparr>)"
proof -
  let ?c = "filter (\<lambda>item. overlaps fct (q_fact item)) q"
  obtain r w' where r: "find_matching_try e fct ?c w = (r, w')"
    by (cases "find_matching_try e fct ?c w")
  then have "w' = w\<lparr>api_log := api_log w @ [SameEvent fct (map q_fact ?c)]\<rparr>"
    using find_matching_try_world [of e fct ?c w] by simp
  with r show ?thesis
    by (cases r) (auto simp: find_matching_stories_def)
qed

lemma is_duplicate_batch_world:
  "snd (is_duplicate_batch e fct published w) =
     (if filter (\<lambda>p. overlaps fct p) published = [] then w
      else w\<lparr>api_log := api_log w @
             [DuplicateOf fct (filter (\<lambda>p. overlaps fct p) published)]\<rparr>)"
proof -
  let ?c = "filter (\<lambda>p. overlaps fct p) published"
  obtain r w' where r: "is_duplicate_try e fct ?c w = (r, w')"
    by (cases "is_duplicate_try e fct ?c w")
  then have "w' = w\<lparr>api_log := api_log w @ [DuplicateOf fct ?c]\<rparr>"
    using is_duplicate_try_world [of e fct ?c w] by simp
  with r show ?thesis
    by (cases r) (auto simp: is_duplicate_batch_def)
qed

lemma is_duplicate_world:
  "snd (is_duplicate e fct w) = w \<or>
   (\<exists>cands. snd (is_duplicate e fct w) = w\<lparr>api_log := api_log w @ [DuplicateOf fct cands]\<rparr>)"
proof (cases "get_story_hash e fct \<in> load_shown_hashes e w")
  case True
  then show ?thesis by (simp add: is_duplicate_def Let_def)
next
  case False
  then have "snd (is_duplicate e fct w) =
               snd (is_duplicate_batch e fct (load_published_stories e w) w)"
    by (simp add: is_duplicate_def Let_def)
  then show ?thesis
    unfolding is_duplicate_batch_world by (metis (full_types))
qed

lemma is_duplicate_fast_path:
  "get_story_hash e fct \<in> load_shown_hashes e w \<Longrightarrow> is_duplicate e fct w = (True, w)"
  by (simp add: is_duplicate_def Let_def)

lemma verify_fact_duplicate:
  assumes "fst (is_duplicate e fct w)"
  shows "verify_fact cfg e h fct conf (w, l) = (snd (is_duplicate e fct w), l)"
proof -
  obtain d w1 where d: "is_duplicate e fct w = (d, w1)"
    by (cases "is_duplicate e fct w")
  with assms have "d" by simp
  with d show ?thesis by (simp add: verify_fact_def)
qed

lemma verify_fact_not_duplicate:
  assumes "\<not> fst (is_duplicate e fct w)"
  shows "verify_fact cfg e h fct conf (w, l) =
       (let w1 = snd (is_duplicate e fct w);
            ms = fst (find_matching_stories e fct (queue l) w1);
            w2 = snd (find_matching_stories e fct (queue l) w1)
        in if ms \<noteq> [] then check_matches cfg e h fct ms (w2, l)
           else (w2, l\<lparr>queue := queue l @ [new_queue_item h fct conf]\<rparr>))"
proof -
  obtain d w1 where d: "is_duplicate e fct w = (d, w1)"
    by (cases "is_duplicate e fct w")
  obtain ms w2 where m: "find_matching_stories e fct (queue l) w1 = (ms, w2)"
    by (cases "find_matching_stories e fct (queue l) w1")
  from assms d have "\<not> d" by simp
  with d m show ?thesis by (simp add: verify_fact_def)
qed

lemma verify_fact_queue_subset:
  "set (queue (snd (verify_fact cfg e h fct conf (w, l))))
     \<subseteq> insert (new_queue_item h fct conf) (set (queue l))"
proof (cases "fst (is_duplicate e fct w)")
  case True
  then show ?thesis by (auto simp: verify_fact_duplicate)
next
  case False
  then show ?thesis
    using check_matches_queue_subset [of cfg e h fct _ _ l]
    by (auto simp: verify_fact_not_duplicate Let_def)
qed

lemma process_headline_cases:
  assumes "process_headline cfg e cache (w, l) h = Inr (w', l')"
  shows "queue l' = queue l \<or> (\<exists>f c w2. verify_fact cfg e h f c (w2, l) = (w', l'))"
proof (cases "is_headline_processed e (h_text h) cache")
  case True
  with assms show ?thesis by (auto simp: process_headline_def)
next
  case False
  obtain result w2 where x: "extract_fact e (h_text h)
      (add_processed_headline e (get_story_hash e (h_text h)) w) = (result, w2)"
    by (cases "extract_fact e (h_text h)
      (add_processed_headline e (get_story_hash e (h_text h)) w)")
  from assms False x show ?thesis
    by (simp add: process_headline_def Let_def split: option.splits if_splits) blast+
qed

lemma process_headline_queue_subset:
  assumes "process_headline cfg e cache (w, l) h = Inr (w', l')" "x \<in> set (queue l')"
  shows "x \<in> set (queue l) \<or> (\<exists>f c. x = new_queue_item h f c)"
proof -
  from process_headline_cases [OF assms(1)] show ?thesis
  proof
    assume "queue l' = queue l"
    with assms(2) show ?thesis by simp
  next
    assume "\<exists>f c w2. verify_fact cfg e h f c (w2, l) = (w', l')"
    then obtain f c w2 where v: "verify_fact cfg e h f c (w2, l) = (w', l')" by blast
    then have "l' = snd (verify_fact cfg e h f c (w2, l))" by simp
    with assms(2) verify_fact_queue_subset [of cfg e h f c w2 l] show ?thesis by auto
  qed
qed

lemma process_headlines_queue_subset:
  "process_headlines cfg e cache hs (w, l) = Inr (w', l') \<Longrightarrow> x \<in> set (queue l') \<Longrightarrow>
     x \<in> set (queue l) \<or> (\<exists>h \<in> set hs. \<exists>f c. x = new_queue_item h f c)"
proof (induction hs arbitrary: w l)
  case Nil
  then show ?case by simp
next
  case (Cons h hs)
  from Cons.prems(1) obtain w1 l1 where
    step: "process_headline cfg e cache (w, l) h = Inr (w1, l1)" and
    rest: "process_headlines cfg e cache hs (w1, l1) = Inr (w', l')"
    by (auto split: sum.splits)
  from Cons.IH [OF rest Cons.prems(2)] show ?case
  proof
    assume "x \<in> set (queue l1)"
    with process_headline_queue_subset [OF step] show ?thesis by auto
  next
    assume "\<exists>h \<in> set hs. \<exists>f c. x = new_queue_item h f c"
    then show ?thesis by auto
  qed
qed

lemma process_cycle_queue:
  assumes "process_cycle cfg e now hs w = Inr w'" "x \<in> set (load_queue w')"
  shows "(x \<in> set (load_queue w) \<and> now < q_timestamp x + queue_timeout_hours cfg * 3600)
         \<or> (\<exists>h \<in> set hs. \<exists>f c. x = new_queue_item h f c)"
proof -
  from assms(1) obtain w1 l1 where
    run: "process_headlines cfg e (load_processed_headlines e w) hs
            (w, \<lparr>queue = clean_expired_queue cfg now (load_queue w), skipped_count = 0,
                 published_count = 0\<rparr>) = Inr (w1, l1)" and
    w': "w' = save_queue (queue l1) w1"
    by (auto simp: process_cycle_def Let_def split: if_splits sum.splits)
  from assms(2) w' have "x \<in> set (queue l1)"
    by (simp add: save_queue_def load_queue_def)
  from process_headlines_queue_subset [OF run this] show ?thesis
    by (auto simp: clean_expired_queue_iff)
qed

subsection \<open>No oracle call without a shortlist\<close>

text \<open>
  Claim C3: when no queue item (no published fact) passes the lexical prefilter against the
  new fact, the corroboration matcher returns the empty list and the slow path of the
  duplicate detector returns false; the state, and with it the log of API requests, is
  unchanged, and the result does not depend on the oracle. The same holds for an empty
  queue and an empty list of published facts.
\<close>

theorem empty_shortlist_no_oracle_call:
  "(filter (\<lambda>item. overlaps fct (q_fact item)) q = []
      \<longrightarrow> find_matching_stories e fct q w = ([], w))
   \<and> (filter (\<lambda>p. overlaps fct p) published = []
      \<longrightarrow> is_duplicate_batch e fct published w = (False, w))
   \<and> find_matching_stories e fct [] w = ([], w)
   \<and> is_duplicate_batch e fct [] w = (False, w)"
  by (simp add: find_matching_stories_def is_duplicate_batch_def)

theorem empty_shortlist_no_oracle_call_witness:
  "filter (\<lambda>item. overlaps ''Stock markets fall sharply'' (q_fact item)) [item_a, item_other] = []
   \<and> find_matching_stories (reply_env (Inr ''1'')) ''Stock markets fall sharply''
        [item_a, item_other] world0 = ([], world0)
   \<and> filter (\<lambda>p. overlaps ''Stock markets fall sharply'' p) [example_fact] = []
   \<and> is_duplicate_batch (reply_env (Inr ''YES'')) ''Stock markets fall sharply''
        [example_fact] world0 = (False, world0)"
proof -
  have a: "filter (\<lambda>item. overlaps ''Stock markets fall sharply'' (q_fact item))
             [item_a, item_other] = []"
    by code_simp
  have b: "filter (\<lambda>p. overlaps ''Stock markets fall sharply'' p) [example_fact] = []"
    by code_simp
  show ?thesis
    using a b
      empty_shortlist_no_oracle_call
        [of "''Stock markets fall sharply''" "[item_a, item_other]" "reply_env (Inr ''1'')"
            world0 "[example_fact]"]
      empty_shortlist_no_oracle_call
        [of "''Stock markets fall sharply''" "[item_a, item_other]" "reply_env (Inr ''YES'')"
            world0 "[example_fact]"]
    by blast
qed

subsection \<open>Replies of the oracle\<close>

lemma parse_matches_comprehension:
  "parse_matches cands toks =
     [cands ! nat (n - 1).
        tok \<leftarrow> toks, n \<leftarrow> (case py_int tok of Inl err \<Rightarrow> [] | Inr n \<Rightarrow> [n]),
        1 \<le> n \<and> n \<le> int (length cands)]"
  by (induction toks) (auto simp: Let_def split: sum.splits)

lemma find_matching_stories_reply:
  assumes "filter (\<lambda>item. overlaps fct (q_fact item)) q \<noteq> []"
  shows "fst (find_matching_stories e fct q w) =
     (case claude e (length (api_log w))
             (SameEvent fct (map q_fact (filter (\<lambda>item. overlaps fct (q_fact item)) q))) of
        Inl err \<Rightarrow> []
      | Inr txt \<Rightarrow>
          if upper (strip txt) = ''NONE'' \<or> upper (strip txt) = [] then []
          else [filter (\<lambda>item. overlaps fct (q_fact item)) q ! nat (n - 1).
                  tok \<leftarrow> split_sep CHR '','' (filter (\<lambda>c. c \<noteq> CHR '' '') (upper (strip txt))),
                  n \<leftarrow> (case py_int tok of Inl err \<Rightarrow> [] | Inr n \<Rightarrow> [n]),
                  1 \<le> n \<and> n \<le> int (length (filter (\<lambda>item. overlaps fct (q_fact item)) q))])"
proof -
  from assms have q: "q \<noteq> []" by auto
  show ?thesis
  proof (cases "claude e (length (api_log w))
             (SameEvent fct (map q_fact (filter (\<lambda>item. overlaps fct (q_fact item)) q)))")
    case (Inl err)
    with assms q show ?thesis
      by (simp add: find_matching_stories_def find_matching_try_def messages_create_def)
  next
    case (Inr reply)
    with assms q show ?thesis
      by (simp add: find_matching_stories_def find_matching_try_def messages_create_def
          Let_def parse_matches_comprehension)
  qed
qed

lemma is_duplicate_batch_reply:
  assumes "cands = filter (\<lambda>p. overlaps fct p) published" "cands \<noteq> []"
  shows "fst (is_duplicate_batch e fct published w) =
     (case claude e (length (api_log w)) (DuplicateOf fct cands) of
        Inl err \<Rightarrow> False
      | Inr txt \<Rightarrow> upper (strip txt) = ''YES'')"
proof -
  from assms have q: "published \<noteq> []" by auto
  with assms show ?thesis
    by (simp add: is_duplicate_batch_def is_duplicate_try_def messages_create_def Let_def
        split: sum.splits)
qed

text \<open>
  Claim C8: the corroboration matcher and the batch duplicate check return a value for
  every reply of the oracle. With a non-empty shortlist, an exception of the API gives the
  empty list (not a duplicate); the reply \<^verbatim>\<open>NONE\<close> or an empty reply gives the empty list;
  otherwise the matches are the shortlist entries at the tokens that \<^verbatim>\<open>int\<close> accepts and
  that lie between 1 and the length of the shortlist, in the order of the reply, every
  other token being skipped; the duplicate check is true exactly for the reply \<^verbatim>\<open>YES\<close>.
  Every match is an entry of the shortlist.
\<close>

theorem oracle_reply_parsed_defensively:
  "(filter (\<lambda>item. overlaps fct (q_fact item)) q \<noteq> [] \<longrightarrow>
      fst (find_matching_stories e fct q w) =
        (case claude e (length (api_log w))
                (SameEvent fct (map q_fact (filter (\<lambda>item. overlaps fct (q_fact item)) q))) of
           Inl err \<Rightarrow> []
         | Inr txt \<Rightarrow>
             if upper (strip txt) = ''NONE'' \<or> upper (strip txt) = [] then []
             else [filter (\<lambda>item. overlaps fct (q_fact item)) q ! nat (n - 1).
                     tok \<leftarrow> split_sep CHR '','' (filter (\<lambda>c. c \<noteq> CHR '' '') (upper (strip txt))),
                     n \<leftarrow> (case py_int tok of Inl err \<Rightarrow> [] | Inr n \<Rightarrow> [n]),
                     1 \<le> n \<and> n \<le> int (length (filter (\<lambda>item. overlaps fct (q_fact item)) q))]))
   \<and> (filter (\<lambda>p. overlaps fct p) published \<noteq> [] \<longrightarrow>
      fst (is_duplicate_batch e fct published w) =
        (case claude e (length (api_log w))
                (DuplicateOf fct (filter (\<lambda>p. overlaps fct p) published)) of
           Inl err \<Rightarrow> False
         | Inr txt \<Rightarrow> upper (strip txt) = ''YES''))
   \<and> set (fst (find_matching_stories e fct q w))
        \<subseteq> set (filter (\<lambda>item. overlaps fct (q_fact item)) q)"
proof (intro conjI impI)
  assume "filter (\<lambda>item. overlaps fct (q_fact item)) q \<noteq> []"
  from find_matching_stories_reply [OF this]
  show "fst (find_matching_stories e fct q w) =
        (case claude e (length (api_log w))
                (SameEvent fct (map q_fact (filter (\<lambda>item. overlaps fct (q_fact item)) q))) of
           Inl err \<Rightarrow> []
         | Inr txt \<Rightarrow>
             if upper (strip txt) = ''NONE'' \<or> upper (strip txt) = [] then []
             else [filter (\<lambda>item. overlaps fct (q_fact item)) q ! nat (n - 1).
                     tok \<leftarrow> split_sep CHR '','' (filter (\<lambda>c. c \<noteq> CHR '' '') (upper (strip txt))),
                     n \<leftarrow> (case py_int tok of Inl err \<Rightarrow> [] | Inr n \<Rightarrow> [n]),
                     1 \<le> n \<and> n \<le> int (length (filter (\<lambda>item. overlaps fct (q_fact item)) q))])" .
next
  assume "filter (\<lambda>p. overlaps fct p) published \<noteq> []"
  from is_duplicate_batch_reply [OF refl this]
  show "fst (is_duplicate_batch e fct published w) =
        (case claude e (length (api_log w))
                (DuplicateOf fct (filter (\<lambda>p. overlaps fct p) published)) of
           Inl err \<Rightarrow> False
         | Inr txt \<Rightarrow> upper (strip txt) = ''YES'')" .
next
  show "set (fst (find_matching_stories e fct q w))
        \<subseteq> set (filter (\<lambda>item. overlaps fct (q_fact item)) q)"
    by (rule find_matching_stories_subset)
qed

theorem oracle_reply_parsed_defensively_witness:
  "filter (\<lambda>item. overlaps example_fact (q_fact item)) [item_a, item_other, item_d] \<noteq> []
   \<and> filter (\<lambda>p. overlaps example_fact p) [example_fact] \<noteq> []
   \<and> fst (find_matching_stories (reply_env (Inr '' 3, x, 0, 7,1 ,, 2.0''))
           example_fact [item_a, item_other, item_d] world0) = [item_d, item_a]
   \<and> fst (find_matching_stories (reply_env (Inr (''1,'' @ [CHR 0x1C] @ ''2'')))
           example_fact [item_a, item_other, item_d] world0) = [item_a]
   \<and> fst (find_matching_stories (reply_env (Inr (''1,'' @ [CHR 0xA0] @ ''2'')))
           example_fact [item_a, item_other, item_d] world0) = [item_a, item_other]
   \<and> fst (find_matching_stories (reply_env (Inl ApiError))
           example_fact [item_a, item_other, item_d] world0) = []
   \<and> fst (find_matching_stories (reply_env (Inr '' none ''))
           example_fact [item_a, item_other, item_d] world0) = []
   \<and> \<not> fst (is_duplicate_batch (reply_env (Inl ApiError)) example_fact [example_fact] world0)
   \<and> \<not> fst (is_duplicate_batch (reply_env (Inr ''Yes, it is'')) example_fact [example_fact] world0)
   \<and> fst (is_duplicate_batch (reply_env (Inr '' yes '')) example_fact [example_fact] world0)"
proof -
  have c: "filter (\<lambda>item. overlaps example_fact (q_fact item)) [item_a, item_other, item_d]
             = [item_a, item_other, item_d]"
    by code_simp
  have p: "filter (\<lambda>p. overlaps example_fact p) [example_fact] = [example_fact]"
    by code_simp
  have r1: "(case claude (reply_env (Inr '' 3, x, 0, 7,1 ,, 2.0'')) (length (api_log world0))
                (SameEvent example_fact (map q_fact [item_a, item_other, item_d])) of
           Inl err \<Rightarrow> []
         | Inr txt \<Rightarrow>
             if upper (strip txt) = ''NONE'' \<or> upper (strip txt) = [] then []
             else [[item_a, item_other, item_d] ! nat (n - 1).
                     tok \<leftarrow> split_sep CHR '','' (filter (\<lambda>c. c \<noteq> CHR '' '') (upper (strip txt))),
                     n \<leftarrow> (case py_int tok of Inl err \<Rightarrow> [] | Inr n \<Rightarrow> [n]),
                     1 \<le> n \<and> n \<le> int (length [item_a, item_other, item_d])]) = [item_d, item_a]"
    by code_simp
  have r4: "(case claude (reply_env (Inr (''1,'' @ [CHR 0x1C] @ ''2''))) (length (api_log world0))
                (SameEvent example_fact (map q_fact [item_a, item_other, item_d])) of
           Inl err \<Rightarrow> []
         | Inr txt \<Rightarrow>
             if upper (strip txt) = ''NONE'' \<or> upper (strip txt) = [] then []
             else [[item_a, item_other, item_d] ! nat (n - 1).
                     tok \<leftarrow> split_sep CHR '','' (filter (\<lambda>c. c \<noteq> CHR '' '') (upper (strip txt))),
                     n \<leftarrow> (case py_int tok of Inl err \<Rightarrow> [] | Inr n \<Rightarrow> [n]),
                     1 \<le> n \<and> n \<le> int (length [item_a, item_other, item_d])]) = [item_a]"
    by code_simp
  have r5: "(case claude (reply_env (Inr (''1,'' @ [CHR 0xA0] @ ''2''))) (length (api_log world0))
                (SameEvent example_fact (map q_fact [item_a, item_other, item_d])) of
           Inl err \<Rightarrow> []
         | Inr txt \<Rightarrow>
             if upper (strip txt) = ''NONE'' \<or> upper (strip txt) = [] then []
             else [[item_a, item_other, item_d] ! nat (n - 1).
                     tok \<leftarrow> split_sep CHR '','' (filter (\<lambda>c. c \<noteq> CHR '' '') (upper (strip txt))),
                     n \<leftarrow> (case py_int tok of Inl err \<Rightarrow> [] | Inr n \<Rightarrow> [n]),
                     1 \<le> n \<and> n \<le> int (length [item_a, item_other, item_d])])
             = [item_a, item_other]"
    by code_simp
  have r2: "(case claude (reply_env (Inl ApiError)) (length (api_log world0))
                (SameEvent example_fact (map q_fact [item_a, item_other, item_d])) of
           Inl err \<Rightarrow> []
         | Inr txt \<Rightarrow>
             if upper (strip txt) = ''NONE'' \<or> upper (strip txt) = [] then []
             else [[item_a, item_other, item_d] ! nat (n - 1).
                     tok \<leftarrow> split_sep CHR '','' (filter (\<lambda>c. c \<noteq> CHR '' '') (upper (strip txt))),
                     n \<leftarrow> (case py_int tok of Inl err \<Rightarrow> [] | Inr n \<Rightarrow> [n]),
                     1 \<le> n \<and> n \<le> int (length [item_a, item_other, item_d])]) = []"
    by code_simp
  have r3: "(case claude (reply_env (Inr '' none '')) (length (api_log world0))
                (SameEvent example_fact (map q_fact [item_a, item_other, item_d])) of
           Inl err \<Rightarrow> []
         | Inr txt \<Rightarrow>
             if upper (strip txt) = ''NONE'' \<or> upper (strip txt) = [] then []
             else [[item_a, item_other, item_d] ! nat (n - 1).
                     tok \<leftarrow> split_sep CHR '','' (filter (\<lambda>c. c \<noteq> CHR '' '') (upper (strip txt))),
                     n \<leftarrow> (case py_int tok of Inl err \<Rightarrow> [] | Inr n \<Rightarrow> [n]),
                     1 \<le> n \<and> n \<le> int (length [item_a, item_other, item_d])]) = []"
    by code_simp
  have d1: "\<not> (case claude (reply_env (Inl ApiError)) (length (api_log world0))
                (DuplicateOf example_fact [example_fact]) of
           Inl err \<Rightarrow> False | Inr txt \<Rightarrow> upper (strip txt) = ''YES'')"
    by code_simp
  have d2: "\<not> (case claude (reply_env (Inr ''Yes, it is'')) (length (api_log world0))
                (DuplicateOf example_fact [example_fact]) of
           Inl err \<Rightarrow> False | Inr txt \<Rightarrow> upper (strip txt) = ''YES'')"
    by code_simp
  have d3: "(case claude (reply_env (Inr '' yes '')) (length (api_log world0))
                (DuplicateOf example_fact [example_fact]) of
           Inl err \<Rightarrow> False | Inr txt \<Rightarrow> upper (strip txt) = ''YES'')"
    by code_simp
  show ?thesis
    using r1 r2 r3 r4 r5 d1 d2 d3
      oracle_reply_parsed_defensively
        [of example_fact "[item_a, item_other, item_d]"
            "reply_env (Inr '' 3, x, 0, 7,1 ,, 2.0'')" world0 "[example_fact]"]
      oracle_reply_parsed_defensively
        [of example_fact "[item_a, item_other, item_d]"
            "reply_env (Inr (''1,'' @ [CHR 0x1C] @ ''2''))" world0 "[example_fact]"]
      oracle_reply_parsed_defensively
        [of example_fact "[item_a, item_other, item_d]"
            "reply_env (Inr (''1,'' @ [CHR 0xA0] @ ''2''))" world0 "[example_fact]"]
      oracle_reply_parsed_defensively
        [of example_fact "[item_a, item_other, item_d]" "reply_env (Inl ApiError)" world0
            "[example_fact]"]
      oracle_reply_parsed_defensively
        [of example_fact "[item_a, item_other, item_d]" "reply_env (Inr '' none '')" world0
            "[example_fact]"]
      oracle_reply_parsed_defensively
        [of example_fact "[item_a, item_other, item_d]" "reply_env (Inr ''Yes, it is'')" world0
            "[example_fact]"]
      oracle_reply_parsed_defensively
        [of example_fact "[item_a, item_other, item_d]" "reply_env (Inr '' yes '')" world0
            "[example_fact]"]
    unfolding c p by simp
qed

subsection \<open>Queue expiry\<close>

text \<open>
  Claim C6: cleaning the queue at any time strictly before \<open>T + H\<close> keeps an item with
  timestamp \<open>T\<close>, and cleaning at any time strictly after \<open>T + H\<close> removes it, \<open>H\<close> being
  the configured timeout in hours; what the cleaning keeps are items of the queue whose age
  does not exceed the timeout. A cycle cleans the loaded queue before its loop over the
  headlines starts, so that an item of the queue saved at the end either was in the loaded
  queue and had not expired, or was enqueued from a headline of this cycle.
\<close>

theorem queue_expiry:
  "(item \<in> set q \<and> now < q_timestamp item + queue_timeout_hours cfg * 3600
      \<longrightarrow> item \<in> set (clean_expired_queue cfg now q))
   \<and> (q_timestamp item + queue_timeout_hours cfg * 3600 < now
      \<longrightarrow> item \<notin> set (clean_expired_queue cfg now q))
   \<and> (\<forall>x \<in> set (clean_expired_queue cfg now q).
         x \<in> set q \<and> \<not> queue_timeout_hours cfg * 3600 < now - q_timestamp x)
   \<and> (\<not> kill_switch w \<longrightarrow>
        process_cycle cfg e now hs w =
          (case process_headlines cfg e (load_processed_headlines e w) hs
                  (w, \<lparr>queue = clean_expired_queue cfg now (load_queue w),
                       skipped_count = 0, published_count = 0\<rparr>) of
             Inl err \<Rightarrow> Inl err
           | Inr (w', l) \<Rightarrow> Inr (save_queue (queue l) w')))
   \<and> (process_cycle cfg e now hs w = Inr w' \<and> y \<in> set (load_queue w') \<longrightarrow>
        (y \<in> set (load_queue w) \<and> now < q_timestamp y + queue_timeout_hours cfg * 3600)
        \<or> (\<exists>h \<in> set hs. \<exists>f c. y = new_queue_item h f c))"
proof (intro conjI impI ballI)
  assume "item \<in> set q \<and> now < q_timestamp item + queue_timeout_hours cfg * 3600"
  then show "item \<in> set (clean_expired_queue cfg now q)"
    by (simp add: clean_expired_queue_iff)
next
  assume "q_timestamp item + queue_timeout_hours cfg * 3600 < now"
  then show "item \<notin> set (clean_expired_queue cfg now q)"
    by (simp add: clean_expired_queue_iff)
next
  fix x assume "x \<in> set (clean_expired_queue cfg now q)"
  then show "x \<in> set q" by (simp add: clean_expired_queue_iff)
next
  fix x assume "x \<in> set (clean_expired_queue cfg now q)"
  then have "now < q_timestamp x + queue_timeout_hours cfg * 3600"
    by (simp add: clean_expired_queue_iff)
  then show "\<not> queue_timeout_hours cfg * 3600 < now - q_timestamp x" by simp
next
  assume "\<not> kill_switch w"
  then show "process_cycle cfg e now hs w =
          (case process_headlines cfg e (load_processed_headlines e w) hs
                  (w, \<lparr>queue = clean_expired_queue cfg now (load_queue w),
                       skipped_count = 0, published_count = 0\<rparr>) of
             Inl err \<Rightarrow> Inl err
           | Inr (w', l) \<Rightarrow> Inr (save_queue (queue l) w'))"
    by (simp add: process_cycle_def Let_def)
next
  assume "process_cycle cfg e now hs w = Inr w' \<and> y \<in> set (load_queue w')"
  then show "(y \<in> set (load_queue w) \<and> now < q_timestamp y + queue_timeout_hours cfg * 3600)
        \<or> (\<exists>h \<in> set hs. \<exists>f c. y = new_queue_item h f c)"
    using process_cycle_queue [of cfg e now hs w w' y] by blast
qed

theorem queue_expiry_witness:
  "item_a \<in> set [item_a] \<and> 11799 < q_timestamp item_a + queue_timeout_hours example_config * 3600
   \<and> item_a \<in> set (clean_expired_queue example_config 11799 [item_a])
   \<and> q_timestamp item_a + queue_timeout_hours example_config * 3600 < 11801
   \<and> item_a \<notin> set (clean_expired_queue example_config 11801 [item_a])
   \<and> \<not> kill_switch world0
   \<and> process_cycle example_config example_env 11801 [] world0 = Inr (save_queue [] world0)"
proof -
  have a: "item_a \<in> set [item_a]" by simp
  have b: "11799 < q_timestamp item_a + queue_timeout_hours example_config * 3600"
    by code_simp
  have c: "q_timestamp item_a + queue_timeout_hours example_config * 3600 < 11801"
    by code_simp
  have k: "\<not> kill_switch world0" by code_simp
  have p: "(case process_headlines example_config example_env
                  (load_processed_headlines example_env world0) []
                  (world0, \<lparr>queue = clean_expired_queue example_config 11801 (load_queue world0),
                       skipped_count = 0, published_count = 0\<rparr>) of
             Inl err \<Rightarrow> Inl err
           | Inr (w', l) \<Rightarrow> Inr (save_queue (queue l) w')) =
         Inr (save_queue (clean_expired_queue example_config 11801 (load_queue world0)) world0)"
    by simp
  have q: "clean_expired_queue example_config 11801 (load_queue world0) = []"
    by code_simp
  show ?thesis
    using a b c k p q
      queue_expiry [of item_a "[item_a]" 11799 example_config world0 example_env "[]"]
      queue_expiry [of item_a "[item_a]" 11801 example_config world0 example_env "[]"]
    by simp
qed

subsection \<open>Duplicates are dropped\<close>

text \<open>
  Claim C7: when \<^verbatim>\<open>is_duplicate(fact)\<close> is true, the pipeline drops the fact: the queue and
  the counters are unchanged, and the state differs from the one before at most by one
  duplicate question in the log of API requests, so that nothing is published and the
  corroboration matcher is not called. A fact whose hash is in today's shown-hash set is
  dropped by the fast path: the state is unchanged and no request is made at all.
\<close>

theorem duplicate_fact_dropped:
  "(fst (is_duplicate e fct w) \<longrightarrow>
      verify_fact cfg e h fct conf (w, l) = (snd (is_duplicate e fct w), l)
      \<and> (snd (is_duplicate e fct w) = w
          \<or> (\<exists>cands. snd (is_duplicate e fct w) =
                        w\<lparr>api_log := api_log w @ [DuplicateOf fct cands]\<rparr>)))
   \<and> (get_story_hash e fct \<in> load_shown_hashes e w \<longrightarrow>
        is_duplicate e fct w = (True, w) \<and> verify_fact cfg e h fct conf (w, l) = (w, l))"
proof (intro conjI impI)
  assume "fst (is_duplicate e fct w)"
  then show "verify_fact cfg e h fct conf (w, l) = (snd (is_duplicate e fct w), l)"
    by (rule verify_fact_duplicate)
next
  show "snd (is_duplicate e fct w) = w
          \<or> (\<exists>cands. snd (is_duplicate e fct w) =
                        w\<lparr>api_log := api_log w @ [DuplicateOf fct cands]\<rparr>)"
    by (rule is_duplicate_world)
next
  assume s: "get_story_hash e fct \<in> load_shown_hashes e w"
  then show d: "is_duplicate e fct w = (True, w)"
    by (rule is_duplicate_fast_path)
  then show "verify_fact cfg e h fct conf (w, l) = (w, l)"
    using verify_fact_duplicate [of e fct w cfg h conf l] by simp
qed

theorem duplicate_fact_dropped_witness:
  "get_story_hash example_env example_fact \<in> load_shown_hashes example_env world_shown
   \<and> verify_fact example_config example_env headline_c example_fact 95
        (world_shown, locals0 [item_a]) = (world_shown, locals0 [item_a])
   \<and> fst (is_duplicate (reply_env (Inr ''YES'')) example_fact world_published)
   \<and> verify_fact example_config (reply_env (Inr ''YES'')) headline_c example_fact 95
        (world_published, locals0 [item_a])
      = (snd (is_duplicate (reply_env (Inr ''YES'')) example_fact world_published),
         locals0 [item_a])"
proof -
  have a: "get_story_hash example_env example_fact \<in> load_shown_hashes example_env world_shown"
    by code_simp
  have b: "fst (is_duplicate (reply_env (Inr ''YES'')) example_fact world_published)"
    by code_simp
  show ?thesis
    using a b
      duplicate_fact_dropped [of example_env example_fact world_shown example_config
        headline_c 95 "locals0 [item_a]"]
      duplicate_fact_dropped [of "reply_env (Inr ''YES'')" example_fact world_published
        example_config headline_c 95 "locals0 [item_a]"]
    by blast
qed

subsection \<open>Publication consumes the queue by fact text\<close>

lemma check_matches_all_related:
  "\<forall>m \<in> set ms. \<not> are_sources_unrelated cfg (h_source_id h) (q_source_id m) \<Longrightarrow>
     check_matches cfg e h fct ms (w, l) = (w, l)"
  by (induction ms) auto

lemma check_matches_skip_related:
  "\<forall>m \<in> set pre. \<not> are_sources_unrelated cfg (h_source_id h) (q_source_id m) \<Longrightarrow>
     check_matches cfg e h fct (pre @ ms) (w, l) = check_matches cfg e h fct ms (w, l)"
  by (induction pre) auto

lemma check_matches_first_unrelated:
  assumes "\<forall>x \<in> set pre. \<not> are_sources_unrelated cfg (h_source_id h) (q_source_id x)"
    and "are_sources_unrelated cfg (h_source_id h) (q_source_id m)"
  shows "queue (snd (check_matches cfg e h fct (pre @ m # rest) (w, l))) =
           filter (\<lambda>q. q_fact q \<noteq> q_fact m) (queue l)"
  using assms by (simp add: check_matches_skip_related Let_def)

text \<open>
  Claim C9: when the first match with an unrelated source is \<open>m\<close>, the queue after the
  publication is the queue before without every item whose fact text equals that of \<open>m\<close>,
  whatever the source of such an item; the items with another fact text stay, in their
  order. This is stated for the loop over the matches and for the pipeline step around it.
\<close>

theorem publish_removes_by_fact_text:
  "(\<forall>x \<in> set pre. \<not> are_sources_unrelated cfg (h_source_id h) (q_source_id x))
   \<and> are_sources_unrelated cfg (h_source_id h) (q_source_id m)
   \<longrightarrow> queue (snd (check_matches cfg e h fct (pre @ m # rest) (w, l))) =
         filter (\<lambda>q. q_fact q \<noteq> q_fact m) (queue l)
       \<and> (\<not> fst (is_duplicate e fct w0)
           \<and> fst (find_matching_stories e fct (queue l) (snd (is_duplicate e fct w0)))
               = pre @ m # rest
          \<longrightarrow> queue (snd (verify_fact cfg e h fct conf (w0, l))) =
                filter (\<lambda>q. q_fact q \<noteq> q_fact m) (queue l))"
proof (intro impI conjI)
  assume a: "(\<forall>x \<in> set pre. \<not> are_sources_unrelated cfg (h_source_id h) (q_source_id x))
   \<and> are_sources_unrelated cfg (h_source_id h) (q_source_id m)"
  then show "queue (snd (check_matches cfg e h fct (pre @ m # rest) (w, l))) =
         filter (\<lambda>q. q_fact q \<noteq> q_fact m) (queue l)"
    by (simp add: check_matches_first_unrelated)
  assume b: "\<not> fst (is_duplicate e fct w0)
           \<and> fst (find_matching_stories e fct (queue l) (snd (is_duplicate e fct w0)))
               = pre @ m # rest"
  then have "verify_fact cfg e h fct conf (w0, l) =
      check_matches cfg e h fct (pre @ m # rest)
        (snd (find_matching_stories e fct (queue l) (snd (is_duplicate e fct w0))), l)"
    by (simp add: verify_fact_not_duplicate Let_def)
  with a show "queue (snd (verify_fact cfg e h fct conf (w0, l))) =
                filter (\<lambda>q. q_fact q \<noteq> q_fact m) (queue l)"
    by (simp add: check_matches_first_unrelated)
qed

theorem publish_removes_by_fact_text_witness:
  "are_sources_unrelated example_config (h_source_id headline_c) (q_source_id item_a)
   \<and> \<not> fst (is_duplicate example_env example_fact world0)
   \<and> fst (find_matching_stories example_env example_fact
            (queue (locals0 [item_a, item_other, item_d]))
            (snd (is_duplicate example_env example_fact world0))) = [item_a]
   \<and> q_fact item_d = q_fact item_a \<and> q_source_id item_d \<noteq> q_source_id item_a
   \<and> queue (snd (verify_fact example_config example_env headline_c example_fact 95
               (world0, locals0 [item_a, item_other, item_d]))) = [item_other]"
proof -
  have u: "are_sources_unrelated example_config (h_source_id headline_c) (q_source_id item_a)"
    by code_simp
  have d: "\<not> fst (is_duplicate example_env example_fact world0)"
    by code_simp
  have m: "fst (find_matching_stories example_env example_fact
            (queue (locals0 [item_a, item_other, item_d]))
            (snd (is_duplicate example_env example_fact world0))) = [] @ item_a # []"
    by code_simp
  have s: "q_fact item_d = q_fact item_a \<and> q_source_id item_d \<noteq> q_source_id item_a"
    by code_simp
  have f: "filter (\<lambda>q. q_fact q \<noteq> q_fact item_a) (queue (locals0 [item_a, item_other, item_d]))
             = [item_other]"
    by code_simp
  show ?thesis
    using u d m s f
      publish_removes_by_fact_text [of "[]" example_config headline_c item_a example_env
        example_fact "[]" world0 "locals0 [item_a, item_other, item_d]" world0 95]
    by simp
qed

subsection \<open>Matches from related sources only\<close>

lemma is_duplicate_frame:
  "snd (is_duplicate e fct w) = w\<lparr>api_log := api_log (snd (is_duplicate e fct w))\<rparr>"
  using is_duplicate_world [of e fct w] by (elim disjE exE) simp_all

lemma find_matching_stories_frame:
  "snd (find_matching_stories e fct q w) =
     w\<lparr>api_log := api_log (snd (find_matching_stories e fct q w))\<rparr>"
  by (simp add: find_matching_stories_world)

lemma api_log_frame_trans:
  "b = a\<lparr>api_log := api_log b\<rparr> \<Longrightarrow> c = b\<lparr>api_log := api_log c\<rparr> \<Longrightarrow>
     c = a\<lparr>api_log := api_log c\<rparr>"
proof -
  assume b: "b = a\<lparr>api_log := api_log b\<rparr>" and c: "c = b\<lparr>api_log := api_log c\<rparr>"
  have "c = b\<lparr>api_log := api_log c\<rparr>" by (rule c)
  also have "\<dots> = (a\<lparr>api_log := api_log b\<rparr>)\<lparr>api_log := api_log c\<rparr>"
    using b by (rule arg_cong)
  also have "\<dots> = a\<lparr>api_log := api_log c\<rparr>" by simp
  finally show ?thesis .
qed

text \<open>
  Claim C1 as stated, "a fact that has matches none of which passes the independence check
  is enqueued as a new queue item", does not hold. The queue holds the fact of source \<open>a\<close>;
  source \<open>b\<close>, of the same owner, reports the same event and the oracle matches the two.
  The \<^verbatim>\<open>else\<close> that enqueues belongs to \<^verbatim>\<open>if matches:\<close> ("No match - add to queue"), so
  with a non-empty list of matches nothing is enqueued: the queue still holds the item of
  \<open>a\<close> alone, after the pipeline step and after the whole cycle. Nothing is published.
\<close>

theorem related_match_enqueue_counterexample:
  "\<not> fst (is_duplicate example_env example_fact world0)
   \<and> fst (find_matching_stories example_env example_fact [item_a]
            (snd (is_duplicate example_env example_fact world0))) = [item_a]
   \<and> \<not> are_sources_unrelated example_config (h_source_id headline_b) (q_source_id item_a)
   \<and> queue (snd (verify_fact example_config example_env headline_b example_fact 95
                    (world0, locals0 [item_a]))) = [item_a]
   \<and> new_queue_item headline_b example_fact 95
        \<notin> set (queue (snd (verify_fact example_config example_env headline_b example_fact 95
                              (world0, locals0 [item_a]))))
   \<and> \<not> isl (process_cycle example_config example_env 1300 [headline_b] world0)
   \<and> queue_json (projr (process_cycle example_config example_env 1300 [headline_b] world0))
       = Some [item_a]
   \<and> stories_json (projr (process_cycle example_config example_env 1300 [headline_b] world0))
       = None"
  by code_simp

text \<open>
  Claim C1, amended: for a fact that is not a duplicate and has one or more matches in the
  queue, none of which passes the source-independence check, the pipeline neither
  enqueues the fact nor publishes a story: the queue and the counters are as before (the
  items queued before remain), and the state differs from the one before only in the log
  of API requests.
\<close>

theorem related_matches_leave_queue:
  "\<not> fst (is_duplicate e fct w)
   \<and> fst (find_matching_stories e fct (queue l) (snd (is_duplicate e fct w))) \<noteq> []
   \<and> (\<forall>m \<in> set (fst (find_matching_stories e fct (queue l) (snd (is_duplicate e fct w)))).
         \<not> are_sources_unrelated cfg (h_source_id h) (q_source_id m))
   \<longrightarrow> snd (verify_fact cfg e h fct conf (w, l)) = l
       \<and> fst (verify_fact cfg e h fct conf (w, l)) =
           w\<lparr>api_log := api_log (fst (verify_fact cfg e h fct conf (w, l)))\<rparr>"
proof
  let ?w1 = "snd (is_duplicate e fct w)"
  let ?ms = "fst (find_matching_stories e fct (queue l) ?w1)"
  let ?w2 = "snd (find_matching_stories e fct (queue l) ?w1)"
  assume a: "\<not> fst (is_duplicate e fct w) \<and> ?ms \<noteq> []
     \<and> (\<forall>m \<in> set ?ms. \<not> are_sources_unrelated cfg (h_source_id h) (q_source_id m))"
  then have "verify_fact cfg e h fct conf (w, l) = check_matches cfg e h fct ?ms (?w2, l)"
    by (simp add: verify_fact_not_duplicate Let_def)
  with a have v: "verify_fact cfg e h fct conf (w, l) = (?w2, l)"
    by (simp add: check_matches_all_related)
  have "?w2 = w\<lparr>api_log := api_log ?w2\<rparr>"
    by (rule api_log_frame_trans [OF is_duplicate_frame find_matching_stories_frame])
  with v show "snd (verify_fact cfg e h fct conf (w, l)) = l
       \<and> fst (verify_fact cfg e h fct conf (w, l)) =
           w\<lparr>api_log := api_log (fst (verify_fact cfg e h fct conf (w, l)))\<rparr>"
    by simp
qed

theorem related_matches_leave_queue_witness:
  "\<not> fst (is_duplicate example_env example_fact world0)
   \<and> fst (find_matching_stories example_env example_fact (queue (locals0 [item_a]))
            (snd (is_duplicate example_env example_fact world0))) = [item_a]
   \<and> \<not> are_sources_unrelated example_config (h_source_id headline_b) (q_source_id item_a)
   \<and> snd (verify_fact example_config example_env headline_b example_fact 95
            (world0, locals0 [item_a])) = locals0 [item_a]"
proof -
  have d: "\<not> fst (is_duplicate example_env example_fact world0)"
    by code_simp
  have m: "fst (find_matching_stories example_env example_fact (queue (locals0 [item_a]))
            (snd (is_duplicate example_env example_fact world0))) = [item_a]"
    by code_simp
  have r: "\<not> are_sources_unrelated example_config (h_source_id headline_b) (q_source_id item_a)"
    by code_simp
  show ?thesis
    using d m r
      related_matches_leave_queue [of example_env example_fact world0 "locals0 [item_a]"
        example_config headline_b 95]
    by simp
qed

subsection \<open>The default of the newsworthiness gate\<close>

lemma regex_fallback_newsworthy: "x_newsworthy (regex_fallback e reply) = None"
  by (simp add: regex_fallback_def skip_result_def split: option.splits)

text \<open>
  Claim C10: the result of the regex fallback never has the \<^verbatim>\<open>newsworthy\<close> field, and
  \<^verbatim>\<open>extract_fact\<close> returns that result whenever the reply has no JSON object that parses.
  For a headline that is not cached, whose extraction has a fact other than \<^verbatim>\<open>SKIP\<close> and a
  confidence of at least the minimum, an absent \<^verbatim>\<open>newsworthy\<close> field is treated as true:
  the fact goes on to the duplicate check and the matcher, as it does with
  \<^verbatim>\<open>newsworthy = true\<close>; only an explicit false skips it.
\<close>

theorem missing_newsworthy_defaults_to_true:
  "x_newsworthy (regex_fallback e reply) = None
   \<and> (claude e (length (api_log w)) (ExtractFact t) = Inr reply
       \<and> (py_find reply CHR ''{'' < 0
            \<or> py_rfind reply CHR ''}'' + 1 \<le> py_find reply CHR ''{''
            \<or> json_loads e (take (nat (py_rfind reply CHR ''}'' + 1 - py_find reply CHR ''{''))
                              (drop (nat (py_find reply CHR ''{'')) reply)) = None)
      \<longrightarrow> fst (extract_fact e t w) = regex_fallback e reply
          \<and> x_newsworthy (fst (extract_fact e t w)) = None)
   \<and> (\<not> is_headline_processed e (h_text h) cache
       \<and> extract_fact e (h_text h)
            (add_processed_headline e (get_story_hash e (h_text h)) w) = (result, w2)
       \<and> x_fact result = Some fct \<and> fct \<noteq> ''SKIP''
       \<and> x_confidence result = Some conf \<and> min_confidence cfg \<le> conf
      \<longrightarrow> (x_newsworthy result = None \<longrightarrow>
              process_headline cfg e cache (w, l) h = Inr (verify_fact cfg e h fct conf (w2, l)))
          \<and> (x_newsworthy result = Some True \<longrightarrow>
              process_headline cfg e cache (w, l) h = Inr (verify_fact cfg e h fct conf (w2, l)))
          \<and> (x_newsworthy result = Some False \<longrightarrow>
              process_headline cfg e cache (w, l) h = Inr (w2, l)))"
proof (intro conjI impI)
  show "x_newsworthy (regex_fallback e reply) = None"
    by (rule regex_fallback_newsworthy)
next
  assume a: "claude e (length (api_log w)) (ExtractFact t) = Inr reply
       \<and> (py_find reply CHR ''{'' < 0
            \<or> py_rfind reply CHR ''}'' + 1 \<le> py_find reply CHR ''{''
            \<or> json_loads e (take (nat (py_rfind reply CHR ''}'' + 1 - py_find reply CHR ''{''))
                              (drop (nat (py_find reply CHR ''{'')) reply)) = None)"
  then show x: "fst (extract_fact e t w) = regex_fallback e reply"
    by (auto simp: extract_fact_def messages_create_def Let_def split: option.splits)
  show "x_newsworthy (fst (extract_fact e t w)) = None"
    unfolding x by (rule regex_fallback_newsworthy)
next
  assume a: "\<not> is_headline_processed e (h_text h) cache
       \<and> extract_fact e (h_text h)
            (add_processed_headline e (get_story_hash e (h_text h)) w) = (result, w2)
       \<and> x_fact result = Some fct \<and> fct \<noteq> ''SKIP''
       \<and> x_confidence result = Some conf \<and> min_confidence cfg \<le> conf"
  {
    assume "x_newsworthy result = None"
    with a show "process_headline cfg e cache (w, l) h = Inr (verify_fact cfg e h fct conf (w2, l))"
      by (simp add: process_headline_def Let_def)
  }
  {
    assume "x_newsworthy result = Some True"
    with a show "process_headline cfg e cache (w, l) h = Inr (verify_fact cfg e h fct conf (w2, l))"
      by (simp add: process_headline_def Let_def)
  }
  {
    assume "x_newsworthy result = Some False"
    with a show "process_headline cfg e cache (w, l) h = Inr (w2, l)"
      by (simp add: process_headline_def Let_def)
  }
qed

theorem missing_newsworthy_defaults_to_true_witness:
  "claude fallback_env (length (api_log world0)) (ExtractFact (h_text headline_g))
     = Inr malformed_reply
   \<and> json_loads fallback_env
         (take (nat (py_rfind malformed_reply CHR ''}'' + 1 - py_find malformed_reply CHR ''{''))
            (drop (nat (py_find malformed_reply CHR ''{'')) malformed_reply)) = None
   \<and> x_newsworthy (fst (extract_fact fallback_env (h_text headline_g) world0)) = None
   \<and> \<not> is_headline_processed fallback_env (h_text headline_g) {}
   \<and> min_confidence example_config \<le> 90
   \<and> process_headline example_config fallback_env {} (world0, locals0 [item_a]) headline_g
       = Inr (verify_fact example_config fallback_env headline_g ''Bridge collapses in Genoa'' 90
               (snd (extract_fact fallback_env (h_text headline_g)
                      (add_processed_headline fallback_env
                         (get_story_hash fallback_env (h_text headline_g)) world0)),
                locals0 [item_a]))
   \<and> queue (snd (verify_fact example_config fallback_env headline_g
                    ''Bridge collapses in Genoa'' 90
                    (snd (extract_fact fallback_env (h_text headline_g)
                           (add_processed_headline fallback_env
                              (get_story_hash fallback_env (h_text headline_g)) world0)),
                     locals0 [item_a])))
       = [item_a, new_queue_item headline_g ''Bridge collapses in Genoa'' 90]"
proof -
  let ?w1 = "add_processed_headline fallback_env
               (get_story_hash fallback_env (h_text headline_g)) world0"
  let ?x = "extract_fact fallback_env (h_text headline_g) ?w1"
  have h1: "claude fallback_env (length (api_log world0)) (ExtractFact (h_text headline_g))
              = Inr malformed_reply"
    by code_simp
  have h2: "json_loads fallback_env
         (take (nat (py_rfind malformed_reply CHR ''}'' + 1 - py_find malformed_reply CHR ''{''))
            (drop (nat (py_find malformed_reply CHR ''{'')) malformed_reply)) = None"
    by code_simp
  have h3: "\<not> is_headline_processed fallback_env (h_text headline_g) {}"
    by (simp add: is_headline_processed_def)
  have h4: "?x = (fst ?x, snd ?x)"
    by simp
  have h5: "x_fact (fst ?x) = Some ''Bridge collapses in Genoa''"
    by code_simp
  have h6: "x_confidence (fst ?x) = Some 90"
    by code_simp
  have h7: "x_newsworthy (fst ?x) = None"
    by code_simp
  have h8: "min_confidence example_config \<le> 90"
    by code_simp
  have h9: "''Bridge collapses in Genoa'' \<noteq> ''SKIP''"
    by simp
  have q: "queue (snd (verify_fact example_config fallback_env headline_g
                    ''Bridge collapses in Genoa'' 90 (snd ?x, locals0 [item_a])))
       = [item_a, new_queue_item headline_g ''Bridge collapses in Genoa'' 90]"
    by code_simp
  show ?thesis
    using h1 h2 h3 h4 h5 h6 h7 h8 h9 q
      missing_newsworthy_defaults_to_true
        [where e = fallback_env and reply = malformed_reply and w = world0
           and t = "h_text headline_g" and h = headline_g and cache = "{}"
           and result = "fst ?x" and ?w2.0 = "snd ?x"
           and fct = "''Bridge collapses in Genoa''" and conf = 90
           and cfg = example_config and l = "locals0 [item_a]"]
    by blast
qed

end
